theory Spec2Isabelle
  imports Main "HOL-Library.AList" "HOL-Library.Word"
begin

section \<open>The URL builder\<close>

text \<open>
  \<^verbatim>\<open>createURL\<close> builds the template string \<^verbatim>\<open>`${this.root}/${resourceUri}`\<close>, rewrites it
  with \<^verbatim>\<open>.replace(/([^:])[\\/]+/g, '$1/')\<close> and hands the result to the platform's
  \<^verbatim>\<open>URL\<close> constructor.  Strings are modelled as lists of characters.
\<close>

definition is_sep :: "char \<Rightarrow> bool" where
  "is_sep c = (c = CHR ''/'' \<or> c = CHR 0x5C)"

text \<open>
  The global replace scans from the left.  At a position holding a character other
  than a colon that is followed by at least one slash or backslash, the regular
  expression matches that character together with the whole run behind it (the \<open>+\<close> is
  greedy); the match is replaced by the character and one \<open>/\<close>, and scanning goes on
  behind the match.  At any other position the character is copied and scanning goes
  on at the next position.
\<close>

function replace_slashes :: "string \<Rightarrow> string" where
  "replace_slashes [] = []"
| "replace_slashes [c] = [c]"
| "replace_slashes (c # d # cs) =
     (if c \<noteq> CHR '':'' \<and> is_sep d
      then c # CHR ''/'' # replace_slashes (dropWhile is_sep cs)
      else c # replace_slashes (d # cs))"
  by pat_completeness auto
termination
  by (relation "measure length") (auto simp: length_dropWhile_le less_Suc_eq_le le_SucI)

definition createURL_string :: "string \<Rightarrow> string \<Rightarrow> string" where
  "createURL_string rt resourceUri = replace_slashes (rt @ ''/'' @ resourceUri)"

text \<open>
  The description to compare with: the concatenation in which every maximal run of
  slashes and backslashes that does not directly follow a colon is replaced by one
  \<open>/\<close>, and everything else, in particular a run that directly follows a colon, is
  left as it is.  The scanner remembers whether the last character read was a colon
  (\<open>Colon\<close>), a member of a run that is kept (\<open>Kept\<close>), a member of a run that has
  already been replaced (\<open>Dropped\<close>), or anything else (\<open>Plain\<close>).
\<close>

datatype described_state = Plain | Colon | Kept | Dropped

fun described_collapse :: "described_state \<Rightarrow> string \<Rightarrow> string" where
  "described_collapse st [] = []"
| "described_collapse st (c # cs) =
     (if is_sep c then
        (case st of
           Plain \<Rightarrow> CHR ''/'' # described_collapse Dropped cs
         | Colon \<Rightarrow> c # described_collapse Kept cs
         | Kept \<Rightarrow> c # described_collapse Kept cs
         | Dropped \<Rightarrow> described_collapse Dropped cs)
      else c # described_collapse (if c = CHR '':'' then Colon else Plain) cs)"

definition described_URL_string :: "string \<Rightarrow> string \<Rightarrow> string" where
  "described_URL_string rt resourceUri = described_collapse Plain (rt @ ''/'' @ resourceUri)"

text \<open>
  What the replace does, as a scanner: a character that stands at the very start or
  directly behind a colon is copied whatever it is (\<open>Fresh\<close>); behind any other copied
  character (\<open>Anchored\<close>) a run of slashes and backslashes is replaced by one \<open>/\<close>
  (\<open>Skipping\<close> drops the rest of the run).
\<close>

datatype scan_state = Fresh | Anchored | Skipping

fun after_char :: "char \<Rightarrow> scan_state" where
  "after_char c = (if c = CHR '':'' then Fresh else Anchored)"

fun scan_collapse :: "scan_state \<Rightarrow> string \<Rightarrow> string" where
  "scan_collapse st [] = []"
| "scan_collapse Fresh (c # cs) = c # scan_collapse (after_char c) cs"
| "scan_collapse Anchored (c # cs) =
     (if is_sep c then CHR ''/'' # scan_collapse Skipping cs
      else c # scan_collapse (after_char c) cs)"
| "scan_collapse Skipping (c # cs) =
     (if is_sep c then scan_collapse Skipping cs
      else c # scan_collapse (after_char c) cs)"


section \<open>JavaScript values\<close>

text \<open>
  The values the client's arguments range over: \<^verbatim>\<open>undefined\<close>, \<^verbatim>\<open>null\<close>, booleans,
  numbers, strings and plain objects.  A number is a double: \<open>Integral i\<close> is the
  number the integer \<open>i\<close> converts to (the value of the literal \<open>i\<close>), \<open>Binary64 b\<close> is
  any number, a fraction, \<^verbatim>\<open>NaN\<close> or an infinity among them, by its 64 bits.  A plain
  object is the list of its own enumerable string-keyed properties in the order they
  were created; where a key occurs twice the first occurrence is the property.
\<close>

datatype number = Integral int | Binary64 "64 word"

datatype jsval =
    JUndefined
  | JNull
  | JBool bool
  | JNum number
  | JStr string
  | JObj "(string \<times> jsval) list"

datatype error = TypeError | Thrown jsval

subsection \<open>Numbers as decimal strings\<close>

definition digit_char :: "nat \<Rightarrow> char" where
  "digit_char n = char_of (48 + n mod 10)"

function show_nat :: "nat \<Rightarrow> string" where
  "show_nat n = (if n < 10 then [digit_char n] else show_nat (n div 10) @ [digit_char n])"
  by pat_completeness auto
termination
  by (relation "measure id") auto

definition show_int :: "int \<Rightarrow> string" where
  "show_int i = (if i < 0 then CHR ''-'' # show_nat (nat (- i)) else show_nat (nat i))"

text \<open>
  \<^verbatim>\<open>ToString\<close>, as \<^verbatim>\<open>searchParams.append\<close> applies it to its arguments.  An integer of
  magnitude below \<open>2\<^sup>5\<^sup>3\<close> is written with its decimal digits.  What is written for
  any other number (a fraction, the exponent notation from \<open>10\<^sup>2\<^sup>1\<close> on, \<^verbatim>\<open>NaN\<close>,
  \<^verbatim>\<open>Infinity\<close>) is the platform's algorithm, the parameter \<open>nts\<close>.
\<close>

fun ToString :: "(number \<Rightarrow> string) \<Rightarrow> jsval \<Rightarrow> string" where
  "ToString nts JUndefined = ''undefined''"
| "ToString nts JNull = ''null''"
| "ToString nts (JBool b) = (if b then ''true'' else ''false'')"
| "ToString nts (JNum (Integral i)) = (if \<bar>i\<bar> < 2 ^ 53 then show_int i else nts (Integral i))"
| "ToString nts (JNum (Binary64 b)) = nts (Binary64 b)"
| "ToString nts (JStr s) = s"
| "ToString nts (JObj ps) = ''[object Object]''"

subsection \<open>Property order\<close>

text \<open>
  A property key is an array index when it is the canonical decimal form of an integer
  from \<open>0\<close> to \<open>2\<^sup>3\<^sup>2 - 2\<close>.  An object enumerates its own keys with the array indices
  first, in ascending numeric order, and the other keys behind them in creation order.
\<close>

definition is_digit :: "char \<Rightarrow> bool" where
  "is_digit c = (48 \<le> (of_char c :: nat) \<and> (of_char c :: nat) \<le> 57)"

definition decimal_value :: "string \<Rightarrow> nat" where
  "decimal_value s = foldl (\<lambda>n c. 10 * n + ((of_char c :: nat) - 48)) 0 s"

definition array_index :: "string \<Rightarrow> nat option" where
  "array_index k =
     (if k = [] then None
      else if \<not> list_all is_digit k then None
      else if hd k = CHR ''0'' \<and> tl k \<noteq> [] then None
      else if decimal_value k < 2 ^ 32 - 1 then Some (decimal_value k)
      else None)"

definition index_of_entry :: "string \<times> jsval \<Rightarrow> nat" where
  "index_of_entry p = (case array_index (fst p) of Some n \<Rightarrow> n | None \<Rightarrow> 0)"

definition is_index_entry :: "string \<times> jsval \<Rightarrow> bool" where
  "is_index_entry p = (case array_index (fst p) of Some n \<Rightarrow> True | None \<Rightarrow> False)"

definition own_entries :: "(string \<times> jsval) list \<Rightarrow> (string \<times> jsval) list" where
  "own_entries ps =
     (let qs = AList.clearjunk ps
      in sort_key index_of_entry (filter is_index_entry qs)
         @ filter (\<lambda>p. \<not> is_index_entry p) qs)"

text \<open>
  The own enumerable properties of a value, in enumeration order: those of an object,
  the characters of a string under their positions, none for the other primitives.
\<close>

fun own_properties :: "jsval \<Rightarrow> (string \<times> jsval) list" where
  "own_properties (JObj ps) = own_entries ps"
| "own_properties (JStr s) = zip (map show_nat [0..<length s]) (map (\<lambda>c. JStr [c]) s)"
| "own_properties v = []"

text \<open>Reading a property that may be absent: \<^verbatim>\<open>v?.k\<close> and \<^verbatim>\<open>v[k]\<close> on own properties.\<close>

fun get_prop :: "jsval \<Rightarrow> string \<Rightarrow> jsval" where
  "get_prop (JObj ps) k = (case map_of ps k of Some v \<Rightarrow> v | None \<Rightarrow> JUndefined)"
| "get_prop v k = (case map_of (own_properties v) k of Some x \<Rightarrow> x | None \<Rightarrow> JUndefined)"

text \<open>
  Writing \<^verbatim>\<open>k: v\<close> in an object literal replaces the value of an existing property in
  place and creates a new property at the end otherwise; \<^verbatim>\<open>...v\<close> does so for each own
  property of \<^verbatim>\<open>v\<close> in enumeration order.
\<close>

definition define_prop :: "string \<Rightarrow> jsval \<Rightarrow> (string \<times> jsval) list \<Rightarrow> (string \<times> jsval) list" where
  "define_prop k v ps = AList.update k v ps"

definition spread_into :: "(string \<times> jsval) list \<Rightarrow> jsval \<Rightarrow> (string \<times> jsval) list" where
  "spread_into ps v = fold (\<lambda>p. define_prop (fst p) (snd p)) (own_properties v) ps"

text \<open>An object literal \<^verbatim>\<open>{k1: v1, ..., kn: vn}\<close>.\<close>

definition object_literal :: "(string \<times> jsval) list \<Rightarrow> jsval" where
  "object_literal kvs = JObj (fold (\<lambda>p. define_prop (fst p) (snd p)) kvs [])"

text \<open>\<^verbatim>\<open>Object.keys\<close> throws on \<^verbatim>\<open>undefined\<close> and \<^verbatim>\<open>null\<close>.\<close>

fun Object_keys :: "jsval \<Rightarrow> error + string list" where
  "Object_keys JUndefined = Inl TypeError"
| "Object_keys JNull = Inl TypeError"
| "Object_keys v = Inr (map fst (own_properties v))"


section \<open>The platform\<close>

text \<open>
  A parsed URL, as far as the client looks at it: the serialised URL in front of the
  query, the list behind \<^verbatim>\<open>searchParams\<close>, and the fragment with its \<open>#\<close> (or nothing).
\<close>

record url =
  location :: string
  searchParams :: "(string \<times> string) list"
  hash :: string

definition searchParams_append :: "string \<Rightarrow> string \<Rightarrow> url \<Rightarrow> url" where
  "searchParams_append k v u = u\<lparr>searchParams := searchParams u @ [(k, v)]\<rparr>"

text \<open>
  The \<^verbatim>\<open>application/x-www-form-urlencoded\<close> serialiser behind \<^verbatim>\<open>url.toString()\<close>:
  letters, digits and \<open>* - . _\<close> stay, a space becomes \<open>+\<close>, any other byte becomes
  \<open>%\<close> and two upper-case hexadecimal digits.
\<close>

definition hex_digit :: "nat \<Rightarrow> char" where
  "hex_digit n = (if n mod 16 < 10 then char_of (48 + n mod 16) else char_of (55 + n mod 16))"

definition is_alnum :: "char \<Rightarrow> bool" where
  "is_alnum c =
     (let n = (of_char c :: nat)
      in (48 \<le> n \<and> n \<le> 57) \<or> (65 \<le> n \<and> n \<le> 90) \<or> (97 \<le> n \<and> n \<le> 122))"

definition urlencode_char :: "char \<Rightarrow> string" where
  "urlencode_char c =
     (if c = CHR '' '' then ''+''
      else if is_alnum c \<or> c = CHR ''*'' \<or> c = CHR ''-'' \<or> c = CHR ''.'' \<or> c = CHR ''_'' then [c]
      else [CHR ''%'', hex_digit ((of_char c :: nat) div 16), hex_digit (of_char c)])"

definition urlencode :: "string \<Rightarrow> string" where
  "urlencode s = concat (map urlencode_char s)"

fun join_amp :: "string list \<Rightarrow> string" where
  "join_amp [] = []"
| "join_amp [x] = x"
| "join_amp (x # y # ys) = x @ ''&'' @ join_amp (y # ys)"

definition query_string :: "(string \<times> string) list \<Rightarrow> string" where
  "query_string ps = join_amp (map (\<lambda>p. urlencode (fst p) @ ''='' @ urlencode (snd p)) ps)"

definition url_toString :: "url \<Rightarrow> string" where
  "url_toString u =
     location u @ (if searchParams u = [] then [] else ''?'' @ query_string (searchParams u)) @ hash u"

text \<open>
  A response is its status code and whatever else it carries.  The success resolver
  may return any value, the response itself included.
\<close>

record response =
  status :: int
  payload :: string

datatype retval = RetResponse response | RetValue jsval

text \<open>
  What the client calls and does not define: the \<^verbatim>\<open>URL\<close> constructor (which throws a
  \<^verbatim>\<open>TypeError\<close> on a string that is no URL), \<^verbatim>\<open>fetch\<close>, \<^verbatim>\<open>JSON.stringify\<close>, the
  \<^verbatim>\<open>json()\<close> method of a response, \<^verbatim>\<open>console.error\<close> and the string form of the numbers
  that \<^verbatim>\<open>ToString\<close> leaves to it.  Calls with effects take the state \<open>'w\<close> of everything
  outside the client and return the new one with their result or the error they
  throw.
\<close>

record 'w platform =
  URL_new :: "string \<Rightarrow> url option"
  fetch :: "string \<Rightarrow> jsval \<Rightarrow> 'w \<Rightarrow> (error + response) \<times> 'w"
  JSON_stringify :: "jsval \<Rightarrow> jsval"
  response_json :: "response \<Rightarrow> 'w \<Rightarrow> (error + retval) \<times> 'w"
  console_error :: "int \<Rightarrow> response \<Rightarrow> 'w \<Rightarrow> (error + unit) \<times> 'w"
  Number_toString :: "number \<Rightarrow> string"

section \<open>The client\<close>

text \<open>
  The authorization resolver, the success resolver and the error handler are the
  caller's functions.  Each is run on the outside world and returns its result (or
  the error it throws) and the new world.  The client calls the resolver and the
  handler as its own methods, \<^verbatim>\<open>this.resolver(response)\<close> and
  \<^verbatim>\<open>this.errorHandler(status, response)\<close>, so they receive the client as \<^verbatim>\<open>this\<close>, and
  any of the three can hold the client in its closure: a callback also returns the
  assignments it makes to the client's fields, in order.  What a callback reads of
  the client is part of which function of the world it is at that call.
\<close>

datatype 'w assignment =
    SetRoot string
  | SetAuthorizationString string
  | SetAuthorizationResolver "'w \<Rightarrow> (error + string) \<times> 'w \<times> 'w assignment list"
  | SetContentType string
  | SetFetchOptions jsval
  | SetResolver "response \<Rightarrow> 'w \<Rightarrow> (error + retval) \<times> 'w \<times> 'w assignment list"
  | SetErrorHandler "int \<Rightarrow> response \<Rightarrow> 'w \<Rightarrow> (error + unit) \<times> 'w \<times> 'w assignment list"

datatype 'w auth_value =
    AuthString string
  | AuthResolver "'w \<Rightarrow> (error + string) \<times> 'w \<times> 'w assignment list"

record 'w client =
  root :: string
  authorization :: "'w auth_value"
  contentType :: string
  fetchOptions :: jsval
  resolver :: "response \<Rightarrow> 'w \<Rightarrow> (error + retval) \<times> 'w \<times> 'w assignment list"
  errorHandler :: "int \<Rightarrow> response \<Rightarrow> 'w \<Rightarrow> (error + unit) \<times> 'w \<times> 'w assignment list"

fun apply_assignment :: "'w assignment \<Rightarrow> 'w client \<Rightarrow> 'w client" where
  "apply_assignment (SetRoot r) c = c\<lparr>root := r\<rparr>"
| "apply_assignment (SetAuthorizationString a) c = c\<lparr>authorization := AuthString a\<rparr>"
| "apply_assignment (SetAuthorizationResolver f) c = c\<lparr>authorization := AuthResolver f\<rparr>"
| "apply_assignment (SetContentType ct) c = c\<lparr>contentType := ct\<rparr>"
| "apply_assignment (SetFetchOptions v) c = c\<lparr>fetchOptions := v\<rparr>"
| "apply_assignment (SetResolver r) c = c\<lparr>resolver := r\<rparr>"
| "apply_assignment (SetErrorHandler h) c = c\<lparr>errorHandler := h\<rparr>"

definition apply_assignments :: "'w assignment list \<Rightarrow> 'w client \<Rightarrow> 'w client" where
  "apply_assignments ws c = fold apply_assignment ws c"

record 'w ResterOptions =
  authorization_opt :: "'w auth_value option"
  contentType_opt :: "string option"
  resolver_opt :: "(response \<Rightarrow> 'w \<Rightarrow> (error + retval) \<times> 'w \<times> 'w assignment list) option"
  errorHandler_opt :: "(int \<Rightarrow> response \<Rightarrow> 'w \<Rightarrow> (error + unit) \<times> 'w \<times> 'w assignment list) option"
  fetchOptions_opt :: "jsval option"

text \<open>
  \<^verbatim>\<open>options?.x || d\<close>: the default \<^verbatim>\<open>d\<close> stands in when \<^verbatim>\<open>options\<close> or the field is
  missing and when the field is falsy.  Of the values the fields may hold only the
  empty string is falsy.  The default resolver, the arrow function
  \<^verbatim>\<open>async (res) => await res.json()\<close>, and the default handler \<^verbatim>\<open>console.error\<close> assign
  nothing to the client.
\<close>

fun truthy_auth :: "'w auth_value \<Rightarrow> bool" where
  "truthy_auth (AuthString a) = (a \<noteq> [])"
| "truthy_auth (AuthResolver f) = True"

definition option_field :: "'o option \<Rightarrow> ('o \<Rightarrow> 'a option) \<Rightarrow> 'a option" where
  "option_field options field = (case options of None \<Rightarrow> None | Some opts \<Rightarrow> field opts)"

definition no_assignments :: "('w \<Rightarrow> (error + 'a) \<times> 'w) \<Rightarrow> 'w \<Rightarrow> (error + 'a) \<times> 'w \<times> 'w assignment list" where
  "no_assignments f w = (case f w of (r, w') \<Rightarrow> (r, w', []))"

definition constructor :: "'w platform \<Rightarrow> string \<Rightarrow> 'w ResterOptions option \<Rightarrow> 'w client" where
  "constructor P rt options =
     \<lparr> root = rt,
       authorization =
         (case option_field options authorization_opt of
            Some a \<Rightarrow> if truthy_auth a then a else AuthString []
          | None \<Rightarrow> AuthString []),
       contentType =
         (case option_field options contentType_opt of
            Some ct \<Rightarrow> if ct \<noteq> [] then ct else ''application/json''
          | None \<Rightarrow> ''application/json''),
       fetchOptions = JObj [],
       resolver =
         (case option_field options resolver_opt of
            Some r \<Rightarrow> r
          | None \<Rightarrow> (\<lambda>res. no_assignments (response_json P res))),
       errorHandler =
         (case option_field options errorHandler_opt of
            Some h \<Rightarrow> h
          | None \<Rightarrow> (\<lambda>code res. no_assignments (console_error P code res))) \<rparr>"

subsection \<open>State\<close>

text \<open>
  A method runs on the client object \<open>self\<close> and the outside \<open>world\<close>, and returns the
  value it resolves to, or the error it throws or rejects with, together with both.
  The platform acts on the world; the client object is written by the assignments of
  the callbacks and by nothing else but the methods' own code.  \<open>calls\<close> lists the
  calls made so far to the authorization resolver, \<^verbatim>\<open>fetch\<close>, the error handler and the
  success resolver, each with its arguments.
\<close>

datatype event =
    AuthorizationCall
  | FetchCall string jsval
  | ErrorHandlerCall int response
  | ResolverCall response

record 'w state =
  self :: "'w client"
  world :: 'w
  calls :: "event list"

definition called :: "event \<Rightarrow> 'w \<Rightarrow> 'w assignment list \<Rightarrow> 'w state \<Rightarrow> 'w state" where
  "called e w ws s = \<lparr>self = apply_assignments ws (self s), world = w, calls = calls s @ [e]\<rparr>"

subsection \<open>Methods\<close>

definition getAuthorization :: "'w state \<Rightarrow> (error + string) \<times> 'w state" where
  "getAuthorization s =
     (case authorization (self s) of
        AuthString a \<Rightarrow> (Inr a, s)
      | AuthResolver f \<Rightarrow>
          (case f (world s) of (r, w, ws) \<Rightarrow> (r, called AuthorizationCall w ws s)))"

definition resolve :: "response \<Rightarrow> 'w state \<Rightarrow> (error + retval) \<times> 'w state" where
  "resolve res s =
     (if status res \<ge> 400 then
        (case errorHandler (self s) (status res) res (world s) of
           (Inl e, w, ws) \<Rightarrow> (Inl e, called (ErrorHandlerCall (status res) res) w ws s)
         | (Inr u, w, ws) \<Rightarrow>
             (Inr (RetResponse res), called (ErrorHandlerCall (status res) res) w ws s))
      else
        (case resolver (self s) res (world s) of
           (r, w, ws) \<Rightarrow> (r, called (ResolverCall res) w ws s)))"

definition createURL :: "'w platform \<Rightarrow> string \<Rightarrow> 'w state \<Rightarrow> (error + url) \<times> 'w state" where
  "createURL P resourceUri s =
     (case URL_new P (createURL_string (root (self s)) resourceUri) of
        None \<Rightarrow> (Inl TypeError, s)
      | Some u \<Rightarrow> (Inr u, s))"

text \<open>A parameter default \<^verbatim>\<open>= {}\<close> stands in for \<^verbatim>\<open>undefined\<close> only.\<close>

definition default_empty :: "jsval \<Rightarrow> jsval" where
  "default_empty v = (if v = JUndefined then JObj [] else v)"

text \<open>The \<^verbatim>\<open>headers\<close> literal and the options literal that \<^verbatim>\<open>request\<close> passes to \<^verbatim>\<open>fetch\<close>.\<close>

definition request_headers :: "'w client \<Rightarrow> jsval \<Rightarrow> string \<Rightarrow> (string \<times> jsval) list" where
  "request_headers c options auth =
     spread_into
       (define_prop ''Authorization'' (JStr auth)
         (define_prop ''Content-Type'' (JStr (contentType c))
           (spread_into [] (get_prop (fetchOptions c) ''headers''))))
       (get_prop options ''headers'')"

definition request_init :: "'w client \<Rightarrow> jsval \<Rightarrow> string \<Rightarrow> jsval" where
  "request_init c options auth =
     JObj (define_prop ''headers'' (JObj (request_headers c options auth))
            (spread_into (spread_into [] (fetchOptions c)) options))"

text \<open>
  In the argument of \<^verbatim>\<open>fetch\<close> the client's \<^verbatim>\<open>fetchOptions\<close> and \<^verbatim>\<open>contentType\<close> are read
  before \<^verbatim>\<open>this.getAuthorization()\<close> is called, so the literals are built from the
  client as it is when \<^verbatim>\<open>request\<close> starts; \<^verbatim>\<open>this.resolve\<close> runs on the client as the
  authorization resolver has left it.
\<close>

definition request :: "'w platform \<Rightarrow> string \<Rightarrow> jsval \<Rightarrow> 'w state \<Rightarrow> (error + retval) \<times> 'w state" where
  "request P u options s =
     (case getAuthorization s of
        (Inl e, s1) \<Rightarrow> (Inl e, s1)
      | (Inr auth, s1) \<Rightarrow>
          (let init = request_init (self s) (default_empty options) auth
           in case fetch P u init (world s1) of
                (Inl e, w) \<Rightarrow> (Inl e, called (FetchCall u init) w [] s1)
              | (Inr res, w) \<Rightarrow> resolve res (called (FetchCall u init) w [] s1)))"

definition get ::
  "'w platform \<Rightarrow> string \<Rightarrow> jsval \<Rightarrow> jsval \<Rightarrow> 'w state \<Rightarrow> (error + retval) \<times> 'w state" where
  "get P uri query options s =
     (case createURL P uri s of
        (Inl e, s1) \<Rightarrow> (Inl e, s1)
      | (Inr u, s1) \<Rightarrow>
          (case Object_keys (default_empty query) of
             Inl e \<Rightarrow> (Inl e, s1)
           | Inr ks \<Rightarrow>
               request P
                 (url_toString
                   (fold (\<lambda>k. searchParams_append k
                      (ToString (Number_toString P) (get_prop (default_empty query) k))) ks u))
                 (JObj (define_prop ''method'' (JStr ''GET'')
                         (spread_into [] (default_empty options))))
                 s1))"

definition post ::
  "'w platform \<Rightarrow> string \<Rightarrow> jsval \<Rightarrow> jsval \<Rightarrow> 'w state \<Rightarrow> (error + retval) \<times> 'w state" where
  "post P uri body options s =
     (case createURL P uri s of
        (Inl e, s1) \<Rightarrow> (Inl e, s1)
      | (Inr u, s1) \<Rightarrow>
          request P (url_toString u)
            (JObj (define_prop ''method'' (JStr ''POST'')
                    (spread_into
                      (define_prop ''body''
                        (case body of JStr b \<Rightarrow> body | _ \<Rightarrow> JSON_stringify P body) [])
                      (default_empty options))))
            s1)"

definition delete ::
  "'w platform \<Rightarrow> string \<Rightarrow> jsval \<Rightarrow> 'w state \<Rightarrow> (error + retval) \<times> 'w state" where
  "delete P uri options s =
     (case createURL P uri s of
        (Inl e, s1) \<Rightarrow> (Inl e, s1)
      | (Inr u, s1) \<Rightarrow>
          request P (url_toString u)
            (JObj (define_prop ''method'' (JStr ''DELETE'')
                    (spread_into [] (default_empty options))))
            s1)"

definition put ::
  "'w platform \<Rightarrow> string \<Rightarrow> jsval \<Rightarrow> jsval \<Rightarrow> 'w state \<Rightarrow> (error + retval) \<times> 'w state" where
  "put P uri body options s =
     (case createURL P uri s of
        (Inl e, s1) \<Rightarrow> (Inl e, s1)
      | (Inr u, s1) \<Rightarrow>
          request P (url_toString u)
            (JObj (define_prop ''method'' (JStr ''PUT'')
                    (spread_into (define_prop ''body'' (JSON_stringify P body) [])
                      (default_empty options))))
            s1)"


subsection \<open>Observing a run\<close>

text \<open>
  The own properties of a value as a mapping from keys; the calls a run from \<open>s\<close> to
  \<open>s'\<close> has made; the headers an options object hands to \<^verbatim>\<open>fetch\<close>; and what becomes
  of a method once it calls \<^verbatim>\<open>fetch\<close> with the URL \<open>u\<close> and the options \<open>init\<close>: the
  platform's \<^verbatim>\<open>fetch\<close> is run on them, a rejection is thrown on, a response goes
  through \<^verbatim>\<open>resolve\<close>.
\<close>

definition own_map :: "jsval \<Rightarrow> string \<Rightarrow> jsval option" where
  "own_map v = map_of (own_properties v)"

definition new_calls :: "'w state \<Rightarrow> 'w state \<Rightarrow> event list" where
  "new_calls s s' = drop (length (calls s)) (calls s')"

definition passed_headers :: "jsval \<Rightarrow> string \<Rightarrow> jsval option" where
  "passed_headers init = own_map (get_prop init ''headers'')"

abbreviation fetched ::
  "'w platform \<Rightarrow> string \<Rightarrow> jsval \<Rightarrow> 'w state \<Rightarrow> (error + retval) \<times> 'w state" where
  "fetched P u init s \<equiv>
     (case fetch P u init (world s) of
        (Inl e, w) \<Rightarrow> (Inl e, called (FetchCall u init) w [] s)
      | (Inr res, w) \<Rightarrow> resolve res (called (FetchCall u init) w [] s))"

text \<open>A client none of whose callbacks assigns to a field of the client.\<close>

fun authorization_quiet :: "'w auth_value \<Rightarrow> bool" where
  "authorization_quiet (AuthString a) = True"
| "authorization_quiet (AuthResolver f) = (\<forall>w. snd (snd (f w)) = [])"

definition quiet :: "'w client \<Rightarrow> bool" where
  "quiet c =
     (authorization_quiet (authorization c)
      \<and> (\<forall>res w. snd (snd (resolver c res w)) = [])
      \<and> (\<forall>code res w. snd (snd (errorHandler c code res w)) = []))"


section \<open>A platform to run the client on\<close>

text \<open>
  A small platform for concrete runs.  The world is a counter.  Every non-empty string
  parses as a URL without query and fragment; \<^verbatim>\<open>fetch\<close> answers 404 for a URL that ends
  in \<open>missing\<close> and 200 otherwise, and counts the call; \<^verbatim>\<open>JSON.stringify\<close> is given on
  strings without characters to escape, integers, booleans and \<^verbatim>\<open>null\<close>; the string
  form of a number is given for \<open>10\<^sup>2\<^sup>1\<close> and for \<open>1.5\<close>.
\<close>

definition test_number_string :: "number \<Rightarrow> string" where
  "test_number_string n =
     (if n = Integral 1000000000000000000000 then ''1e+21''
      else if n = Binary64 0x3FF8000000000000 then ''1.5''
      else ''NaN'')"

definition test_stringify :: "jsval \<Rightarrow> jsval" where
  "test_stringify v =
     (case v of
        JUndefined \<Rightarrow> JUndefined
      | JStr b \<Rightarrow> JStr (CHR 0x22 # b @ [CHR 0x22])
      | JObj ps \<Rightarrow> JStr ''{}''
      | _ \<Rightarrow> JStr (ToString test_number_string v))"

definition test_platform :: "nat platform" where
  "test_platform =
     \<lparr> URL_new = (\<lambda>s. if s = [] then None else Some \<lparr>location = s, searchParams = [], hash = []\<rparr>),
       fetch = (\<lambda>u init w.
         (Inr \<lparr>status = (if drop (length u - 7) u = ''missing'' then 404 else 200), payload = u\<rparr>, w + 1)),
       JSON_stringify = test_stringify,
       response_json = (\<lambda>res w. (Inr (RetValue (JStr (payload res))), w)),
       console_error = (\<lambda>code res w. (Inr (), w)),
       Number_toString = test_number_string \<rparr>"

definition test_state :: "nat client \<Rightarrow> nat state" where
  "test_state c = \<lparr>self = c, world = 0, calls = []\<rparr>"

text \<open>
  The same platform with a \<^verbatim>\<open>fetch\<close> that answers with what it was given: the payload
  of the response is a description \<open>d\<close> of the URL and the options, which shows the
  headers of the given names, or the body, or the method, or the URL, with a \<open>-\<close> for
  what is missing.
\<close>

definition shown :: "jsval \<Rightarrow> string" where
  "shown v = (case v of JStr t \<Rightarrow> t | _ \<Rightarrow> ''-'')"

fun describe_headers :: "string list \<Rightarrow> string \<Rightarrow> jsval \<Rightarrow> string" where
  "describe_headers [] u init = []"
| "describe_headers [k] u init = shown (get_prop (get_prop init ''headers'') k)"
| "describe_headers (k # l # ks) u init =
     shown (get_prop (get_prop init ''headers'') k) @ '' '' @ describe_headers (l # ks) u init"

definition describe_body :: "string \<Rightarrow> jsval \<Rightarrow> string" where
  "describe_body u init = shown (get_prop init ''body'')"

definition describe_method :: "string \<Rightarrow> jsval \<Rightarrow> string" where
  "describe_method u init = shown (get_prop init ''method'')"

definition describe_url :: "string \<Rightarrow> jsval \<Rightarrow> string" where
  "describe_url u init = u"

definition echo_fetch ::
  "(string \<Rightarrow> jsval \<Rightarrow> string) \<Rightarrow> string \<Rightarrow> jsval \<Rightarrow> nat \<Rightarrow> (error + response) \<times> nat" where
  "echo_fetch d u init w = (Inr \<lparr>status = 200, payload = d u init\<rparr>, w + 1)"

definition echo_platform :: "(string \<Rightarrow> jsval \<Rightarrow> string) \<Rightarrow> nat platform" where
  "echo_platform d = test_platform\<lparr>fetch := echo_fetch d\<rparr>"

text \<open>
  A client with the authorization \<open>Bearer t\<close> whose owner has set default transport
  options, and per-call options with a header of their own.
\<close>

definition test_client :: "nat client" where
  "test_client =
     (constructor test_platform ''https://api.test''
        (Some \<lparr>authorization_opt = Some (AuthString ''Bearer t''), contentType_opt = None,
               resolver_opt = None, errorHandler_opt = None, fetchOptions_opt = None\<rparr>))
     \<lparr>fetchOptions := object_literal
        [(''cache'', JStr ''no-cache''),
         (''headers'', object_literal
            [(''X-Trace'', JStr ''1''), (''Content-Type'', JStr ''text/plain'')])]\<rparr>"

definition test_options :: jsval where
  "test_options = object_literal
     [(''headers'', object_literal [(''Authorization'', JStr ''Basic z'')])]"

text \<open>An authorization resolver that hands out a new token at every call.\<close>

definition counting_resolver :: "nat \<Rightarrow> (error + string) \<times> nat \<times> nat assignment list" where
  "counting_resolver w = (Inr (''token-'' @ show_nat w), w + 1, [])"

definition rotating_client :: "nat client" where
  "rotating_client =
     constructor test_platform ''https://api.test''
       (Some \<lparr>authorization_opt = Some (AuthResolver counting_resolver), contentType_opt = None,
              resolver_opt = None, errorHandler_opt = None, fetchOptions_opt = None\<rparr>)"

text \<open>A client whose error handler, a function called on the client, moves its root.\<close>

definition moving_handler :: "int \<Rightarrow> response \<Rightarrow> nat \<Rightarrow> (error + unit) \<times> nat \<times> nat assignment list" where
  "moving_handler code res w = (Inr (), w, [SetRoot ''https://other.test''])"

definition moving_client :: "nat client" where
  "moving_client =
     constructor test_platform ''https://api.test''
       (Some \<lparr>authorization_opt = None, contentType_opt = None, resolver_opt = None,
              errorHandler_opt = Some moving_handler, fetchOptions_opt = None\<rparr>)"


section \<open>Properties of the URL builder\<close>

lemma scan_skipping_dropWhile:
  "scan_collapse Skipping cs = scan_collapse Fresh (dropWhile is_sep cs)"
proof (induction cs)
  case Nil
  show ?case by simp
next
  case (Cons c cs)
  show ?case
  proof (cases "is_sep c")
    case True
    with Cons show ?thesis by simp
  next
    case False
    then show ?thesis by simp
  qed
qed

lemma replace_slashes_scan: "replace_slashes s = scan_collapse Fresh s"
proof (induction s rule: replace_slashes.induct)
  case 1
  show ?case by simp
next
  case (2 c)
  show ?case by simp
next
  case (3 c d cs)
  show ?case
  proof (cases "c \<noteq> CHR '':'' \<and> is_sep d")
    case True
    with 3 show ?thesis by (simp add: scan_skipping_dropWhile)
  next
    case False
    with 3 show ?thesis by auto
  qed
qed

text \<open>
  Claim C1, as stated: \<^verbatim>\<open>createURL\<close> returns the URL of root, a slash and the path in
  which every run of slashes and backslashes not directly behind a colon is one \<open>/\<close>,
  and nothing else is changed.  On the root \<open>file:///srv\<close> and the path \<open>x\<close> the
  description gives \<open>file:///srv/x\<close>, and \<^verbatim>\<open>createURL\<close> returns the URL of
  \<open>file://srv/x\<close>: the expression also matches inside a run behind a colon, with the
  run's first character in the place of \<open>[^:]\<close>, and replaces the rest of that run.
  In the same way a run at the very start is not behind a colon and is not collapsed:
  on the root \<open>//cdn.test\<close> the string handed to the \<^verbatim>\<open>URL\<close> constructor is
  \<open>//cdn.test/x\<close>.
\<close>

theorem createURL_described_counterexample:
  "fst (createURL test_platform ''x'' (test_state (constructor test_platform ''file:///srv'' None)))
     = Inr \<lparr>location = ''file://srv/x'', searchParams = [], hash = []\<rparr>
   \<and> URL_new test_platform (described_URL_string ''file:///srv'' ''x'')
     = Some \<lparr>location = ''file:///srv/x'', searchParams = [], hash = []\<rparr>
   \<and> createURL_string ''//cdn.test'' ''x'' = ''//cdn.test/x''
   \<and> described_URL_string ''//cdn.test'' ''x'' = ''/cdn.test/x''"
  by (simp add: createURL_def test_platform_def test_state_def constructor_def
      createURL_string_def described_URL_string_def is_sep_def)

text \<open>
  Claim C1, amended: \<^verbatim>\<open>createURL\<close> hands to the \<^verbatim>\<open>URL\<close> constructor the string of root, a
  slash and the path, read from the left, in which a character at the very start or
  directly behind a colon is kept whatever it is, and every run of slashes and
  backslashes behind any other kept character is replaced by one \<open>/\<close>; it returns the
  constructor's URL, or throws when the constructor does, and leaves the state alone.
  So \<open>://\<close> stays, \<open>:///\<close> becomes \<open>://\<close>, and the root \<open>https://api.test///\<close> with the
  path \<open>//a//b\<close> gives \<open>https://api.test/a/b\<close>.
\<close>

theorem createURL_scan:
  "createURL P resourceUri s =
     (case URL_new P (scan_collapse Fresh (root (self s) @ ''/'' @ resourceUri)) of
        None \<Rightarrow> (Inl TypeError, s)
      | Some u \<Rightarrow> (Inr u, s))
   \<and> createURL_string ''https://api.test///'' ''//a//b'' = ''https://api.test/a/b''
   \<and> createURL_string ''https://host'' ''a:///b'' = ''https://host/a://b''"
  by (simp add: createURL_def createURL_string_def replace_slashes_scan is_sep_def)

theorem createURL_scan_witness:
  "createURL test_platform ''//a//b'' (test_state (constructor test_platform ''https://api.test///'' None))
     = (Inr \<lparr>location = ''https://api.test/a/b'', searchParams = [], hash = []\<rparr>,
        test_state (constructor test_platform ''https://api.test///'' None))"
  using createURL_scan [of test_platform "''//a//b''"
      "test_state (constructor test_platform ''https://api.test///'' None)"]
  by (simp add: test_platform_def test_state_def constructor_def is_sep_def)


section \<open>Properties of objects\<close>

lemma decimal_value_snoc:
  "decimal_value (xs @ [c]) = 10 * decimal_value xs + ((of_char c :: nat) - 48)"
  by (simp add: decimal_value_def)

lemma digit_char_value: "(of_char (digit_char n) :: nat) - 48 = n mod 10"
proof -
  have "n mod 10 < 10" by simp
  then have "(48 + n mod 10) mod 256 = 48 + n mod 10" by simp
  then show ?thesis by (simp add: digit_char_def)
qed

lemma decimal_value_show_nat: "decimal_value (show_nat n) = n"
proof (induction n rule: show_nat.induct)
  case (1 n)
  show ?case
  proof (cases "n < 10")
    case True
    then show ?thesis by (simp add: decimal_value_def digit_char_value)
  next
    case False
    with 1 show ?thesis
      by (subst show_nat.simps) (simp add: decimal_value_snoc digit_char_value)
  qed
qed

lemma show_nat_inj: "show_nat m = show_nat n \<Longrightarrow> m = n"
  using decimal_value_show_nat [of m] decimal_value_show_nat [of n] by simp

lemma distinct_string_keys: "distinct (map show_nat [0..<n])"
  by (simp add: distinct_map inj_on_def show_nat_inj)

lemma insort_key_fst:
  "distinct (map fst (insort_key f x xs)) = (fst x \<notin> fst ` set xs \<and> distinct (map fst xs))"
  by (induction xs) (auto simp: set_insort_key)

lemma sort_key_fst: "distinct (map fst (sort_key f xs)) = distinct (map fst xs)"
  by (induction xs) (auto simp: insort_key_fst)

lemma distinct_own_entries: "distinct (map fst (own_entries ps))"
proof -
  have d: "distinct (map fst (AList.clearjunk ps))" by (rule AList.distinct_clearjunk)
  show ?thesis
    using d by (auto simp: own_entries_def Let_def sort_key_fst distinct_map_filter is_index_entry_def split: option.splits)
qed

lemma set_own_entries: "set (own_entries ps) = set (AList.clearjunk ps)"
  by (auto simp: own_entries_def Let_def)

lemma map_of_own_entries: "map_of (own_entries ps) = map_of ps"
proof -
  have "map_of (own_entries ps) = map_of (AList.clearjunk ps)"
    using map_of_inject_set [OF distinct_own_entries [of ps] AList.distinct_clearjunk [of ps]]
    by (simp add: set_own_entries)
  then show ?thesis by (simp add: AList.map_of_clearjunk)
qed

lemma distinct_own_properties: "distinct (map fst (own_properties v))"
  by (cases v) (simp_all add: distinct_own_entries distinct_string_keys)

lemma own_map_JObj: "own_map (JObj ps) = map_of ps"
  by (simp add: own_map_def map_of_own_entries)

lemma get_prop_own_map:
  "get_prop v k = (case own_map v k of Some x \<Rightarrow> x | None \<Rightarrow> JUndefined)"
  by (cases v) (simp_all add: own_map_def map_of_own_entries)

lemma map_of_define_prop: "map_of (define_prop k v ps) = (map_of ps)(k \<mapsto> v)"
  by (simp add: define_prop_def AList.update_conv')

lemma map_of_fold_define:
  "distinct (map fst xs) \<Longrightarrow>
   map_of (fold (\<lambda>p. define_prop (fst p) (snd p)) xs ps) = map_of ps ++ map_of xs"
proof (induction xs arbitrary: ps)
  case Nil
  show ?case by simp
next
  case (Cons x xs)
  obtain a b where x: "x = (a, b)" by (cases x)
  from Cons.prems x have fresh: "a \<notin> dom (map_of xs)" and d: "distinct (map fst xs)"
    by (auto simp: dom_map_of_conv_image_fst)
  have "map_of (fold (\<lambda>p. define_prop (fst p) (snd p)) (x # xs) ps)
      = map_of (define_prop a b ps) ++ map_of xs"
    using Cons.IH [OF d] x by simp
  also have "\<dots> = (map_of ps)(a \<mapsto> b) ++ map_of xs"
    by (simp only: map_of_define_prop)
  also have "\<dots> = (map_of ps ++ map_of xs)(a \<mapsto> b)"
    using fresh by (rule map_add_upd_left)
  also have "\<dots> = map_of ps ++ (map_of xs)(a \<mapsto> b)"
    by (simp only: map_add_upd)
  also have "\<dots> = map_of ps ++ map_of (x # xs)"
    using x by simp
  finally show ?case .
qed

lemma map_of_spread_into: "map_of (spread_into ps v) = map_of ps ++ own_map v"
  by (simp add: spread_into_def own_map_def map_of_fold_define distinct_own_properties)

section \<open>Properties of the request core\<close>

lemma request_headers_map:
  "map_of (request_headers c options auth) =
     own_map (get_prop (fetchOptions c) ''headers'')
       ++ [''Content-Type'' \<mapsto> JStr (contentType c), ''Authorization'' \<mapsto> JStr auth]
       ++ own_map (get_prop options ''headers'')"
  by (simp add: request_headers_def map_of_spread_into map_of_define_prop)

lemma request_init_map:
  "own_map (request_init c options auth) =
     (own_map (fetchOptions c) ++ own_map options)(''headers'' \<mapsto> JObj (request_headers c options auth))"
  by (simp add: request_init_def own_map_JObj map_of_spread_into map_of_define_prop)

lemma passed_headers_request_init:
  "passed_headers (request_init c options auth) = map_of (request_headers c options auth)"
  by (simp add: passed_headers_def get_prop_own_map request_init_map own_map_JObj)

lemma get_prop_default_empty: "get_prop (default_empty v) k = get_prop v k"
  by (simp add: default_empty_def)

lemma own_map_default_empty: "own_map (default_empty v) = own_map v"
  by (simp add: default_empty_def own_map_def own_entries_def)

lemma request_init_headers:
  "passed_headers (request_init c (default_empty options) auth) =
     own_map (get_prop (fetchOptions c) ''headers'')
       ++ [''Content-Type'' \<mapsto> JStr (contentType c), ''Authorization'' \<mapsto> JStr auth]
       ++ own_map (get_prop options ''headers'')"
  by (simp only: passed_headers_request_init request_headers_map get_prop_default_empty)

lemma apply_no_assignments: "apply_assignments [] c = c"
  by (simp add: apply_assignments_def)

lemma called_fields:
  "self (called e w ws s) = apply_assignments ws (self s)"
  "world (called e w ws s) = w"
  "calls (called e w ws s) = calls s @ [e]"
  by (simp_all add: called_def)

section \<open>Response resolution\<close>

text \<open>
  Claim C3: for every response passed to \<^verbatim>\<open>resolve\<close>: when its status is at least 400,
  the one call made is the error handler's, with the status and the response, the
  success resolver is not called, and the value returned is the response itself (an
  error the handler throws is not caught); when its status is below 400, the one call
  made is the success resolver's, with the response, the error handler is not called,
  and the resolver's result is the result.  The client is left as the one callback
  that ran has assigned to it.
\<close>

theorem resolve_routes:
  "(status res \<ge> 400 \<longrightarrow>
      new_calls s (snd (resolve res s)) = [ErrorHandlerCall (status res) res]
      \<and> world (snd (resolve res s)) = fst (snd (errorHandler (self s) (status res) res (world s)))
      \<and> fst (resolve res s) =
          (case fst (errorHandler (self s) (status res) res (world s)) of
             Inl e \<Rightarrow> Inl e
           | Inr u \<Rightarrow> Inr (RetResponse res))
      \<and> self (snd (resolve res s)) =
          apply_assignments (snd (snd (errorHandler (self s) (status res) res (world s)))) (self s))
   \<and> (status res < 400 \<longrightarrow>
      new_calls s (snd (resolve res s)) = [ResolverCall res]
      \<and> world (snd (resolve res s)) = fst (snd (resolver (self s) res (world s)))
      \<and> fst (resolve res s) = fst (resolver (self s) res (world s))
      \<and> self (snd (resolve res s)) =
          apply_assignments (snd (snd (resolver (self s) res (world s)))) (self s))"
  by (auto simp: resolve_def called_def new_calls_def split: prod.splits sum.splits)

theorem resolve_routes_witness:
  "fst (resolve \<lparr>status = 404, payload = ''gone''\<rparr>
         (test_state (constructor test_platform ''https://api.test'' None)))
     = Inr (RetResponse \<lparr>status = 404, payload = ''gone''\<rparr>)
   \<and> calls (snd (resolve \<lparr>status = 404, payload = ''gone''\<rparr>
         (test_state (constructor test_platform ''https://api.test'' None))))
     = [ErrorHandlerCall 404 \<lparr>status = 404, payload = ''gone''\<rparr>]
   \<and> fst (resolve \<lparr>status = 399, payload = ''ok''\<rparr>
         (test_state (constructor test_platform ''https://api.test'' None)))
     = Inr (RetValue (JStr ''ok''))
   \<and> calls (snd (resolve \<lparr>status = 399, payload = ''ok''\<rparr>
         (test_state (constructor test_platform ''https://api.test'' None))))
     = [ResolverCall \<lparr>status = 399, payload = ''ok''\<rparr>]"
proof -
  let ?s = "test_state (constructor test_platform ''https://api.test'' None)"
  let ?bad = "\<lparr>status = 404, payload = ''gone''\<rparr>"
  let ?good = "\<lparr>status = 399, payload = ''ok''\<rparr>"
  have handler: "errorHandler (self ?s) 404 ?bad (world ?s) = (Inr (), 0, [])"
    by (simp add: test_state_def constructor_def test_platform_def option_field_def
        no_assignments_def)
  have res: "resolver (self ?s) ?good (world ?s) = (Inr (RetValue (JStr ''ok'')), 0, [])"
    by (simp add: test_state_def constructor_def test_platform_def option_field_def
        no_assignments_def)
  have c: "calls ?s = []" by (simp add: test_state_def)
  from resolve_routes [of ?bad ?s] handler c
  have 1: "calls (snd (resolve ?bad ?s)) = [ErrorHandlerCall 404 ?bad]"
    "fst (resolve ?bad ?s) = Inr (RetResponse ?bad)"
    by (simp_all add: new_calls_def)
  from resolve_routes [of ?good ?s] res c
  have 2: "calls (snd (resolve ?good ?s)) = [ResolverCall ?good]"
    "fst (resolve ?good ?s) = Inr (RetValue (JStr ''ok''))"
    by (simp_all add: new_calls_def)
  show ?thesis by (simp only: 1 2)
qed

section \<open>Construction\<close>

text \<open>
  Claim C8: for every options argument of the constructor, the client's \<^verbatim>\<open>contentType\<close>
  is not empty: it is the supplied content type when that is a non-empty string, and
  \<open>application/json\<close> when the options or the field are missing or the field is the
  empty string.
\<close>

theorem constructor_contentType:
  "contentType (constructor P rt options) \<noteq> []
   \<and> (\<forall>ct. option_field options contentType_opt = Some ct \<and> ct \<noteq> [] \<longrightarrow>
         contentType (constructor P rt options) = ct)
   \<and> (option_field options contentType_opt = None \<or> option_field options contentType_opt = Some [] \<longrightarrow>
         contentType (constructor P rt options) = ''application/json'')"
  by (auto simp: constructor_def split: option.splits)

theorem constructor_contentType_witness:
  "contentType (constructor test_platform ''https://api.test''
      (Some \<lparr>authorization_opt = None, contentType_opt = Some ''text/plain'', resolver_opt = None,
             errorHandler_opt = None, fetchOptions_opt = None\<rparr>)) = ''text/plain''
   \<and> contentType (constructor test_platform ''https://api.test''
      (Some \<lparr>authorization_opt = None, contentType_opt = Some [], resolver_opt = None,
             errorHandler_opt = None, fetchOptions_opt = None\<rparr>)) = ''application/json''
   \<and> contentType (constructor test_platform ''https://api.test'' None) = ''application/json''"
  using constructor_contentType [of test_platform "''https://api.test''"
      "Some \<lparr>authorization_opt = None, contentType_opt = Some ''text/plain'', resolver_opt = None,
             errorHandler_opt = None, fetchOptions_opt = None\<rparr>"]
    constructor_contentType [of test_platform "''https://api.test''"
      "Some \<lparr>authorization_opt = None, contentType_opt = Some [], resolver_opt = None,
             errorHandler_opt = None, fetchOptions_opt = None\<rparr>"]
    constructor_contentType [of test_platform "''https://api.test''" None]
  by (simp add: option_field_def)

section \<open>Header precedence\<close>

lemma test_client_fields:
  "root test_client = ''https://api.test''"
  "authorization test_client = AuthString ''Bearer t''"
  "contentType test_client = ''application/json''"
  "fetchOptions test_client =
     JObj [(''cache'', JStr ''no-cache''),
           (''headers'', JObj [(''X-Trace'', JStr ''1''), (''Content-Type'', JStr ''text/plain'')])]"
  "resolver test_client = (\<lambda>res. no_assignments (response_json test_platform res))"
  by (simp_all add: test_client_def constructor_def option_field_def object_literal_def define_prop_def)

lemma test_options_value:
  "test_options = JObj [(''headers'', JObj [(''Authorization'', JStr ''Basic z'')])]"
  by (simp add: test_options_def object_literal_def define_prop_def)

lemma echo_platform_fields:
  "fetch (echo_platform d) = echo_fetch d"
  "URL_new (echo_platform d) = URL_new test_platform"
  "JSON_stringify (echo_platform d) = test_stringify"
  "Number_toString (echo_platform d) = test_number_string"
  by (simp_all add: echo_platform_def test_platform_def)

lemma echoed:
  assumes "resolver (self s) = (\<lambda>res. no_assignments (response_json test_platform res))"
  shows "fst (fetched (echo_platform d) u init s) = Inr (RetValue (JStr (d u init)))"
  using assms
  by (simp add: echo_platform_fields echo_fetch_def resolve_def called_def apply_no_assignments
      no_assignments_def test_platform_def)

lemma shown_header:
  "shown (get_prop (get_prop init ''headers'') k) =
     (case passed_headers init k of Some (JStr t) \<Rightarrow> t | _ \<Rightarrow> ''-'')"
  by (simp add: shown_def passed_headers_def get_prop_own_map split: option.splits jsval.splits)

text \<open>
  Claim C2: for every call of \<^verbatim>\<open>request\<close> the headers passed to \<^verbatim>\<open>fetch\<close> are, from lowest
  to highest precedence, the headers of the client's \<^verbatim>\<open>fetchOptions\<close>, then
  \<open>Content-Type\<close> with the client's content type and \<open>Authorization\<close> with the resolved
  authorization, then the headers of the per-call options.  A per-call header wins
  over the synthesized one of the same name, and a synthesized one over a default of
  the same name.  What \<^verbatim>\<open>request\<close> returns is what the platform's \<^verbatim>\<open>fetch\<close>, run on the
  URL and on options with these headers, and \<^verbatim>\<open>resolve\<close> make of it.  (\<^verbatim>\<open>fetch\<close> is not
  called when the authorization resolver throws.)
\<close>

theorem request_header_layers:
  "case getAuthorization s of
     (Inl e, s1) \<Rightarrow> request P u options s = (Inl e, s1)
   | (Inr auth, s1) \<Rightarrow>
       (\<exists>init. request P u options s = fetched P u init s1
          \<and> passed_headers init =
               own_map (get_prop (fetchOptions (self s)) ''headers'')
               ++ [''Content-Type'' \<mapsto> JStr (contentType (self s)), ''Authorization'' \<mapsto> JStr auth]
               ++ own_map (get_prop options ''headers'')
          \<and> (\<forall>k v. own_map (get_prop options ''headers'') k = Some v \<longrightarrow>
                 passed_headers init k = Some v)
          \<and> (own_map (get_prop options ''headers'') ''Content-Type'' = None \<longrightarrow>
                 passed_headers init ''Content-Type'' = Some (JStr (contentType (self s))))
          \<and> (own_map (get_prop options ''headers'') ''Authorization'' = None \<longrightarrow>
                 passed_headers init ''Authorization'' = Some (JStr auth)))"
proof (cases "getAuthorization s")
  case (Pair r s1)
  show ?thesis
  proof (cases r)
    case (Inl e)
    with Pair show ?thesis by (simp add: request_def)
  next
    case (Inr auth)
    let ?init = "request_init (self s) (default_empty options) auth"
    have layers: "passed_headers ?init =
        own_map (get_prop (fetchOptions (self s)) ''headers'')
        ++ [''Content-Type'' \<mapsto> JStr (contentType (self s)), ''Authorization'' \<mapsto> JStr auth]
        ++ own_map (get_prop options ''headers'')"
      by (rule request_init_headers)
    have run: "request P u options s = fetched P u ?init s1"
      using Pair Inr unfolding request_def Let_def by simp
    have a: "\<forall>k v. own_map (get_prop options ''headers'') k = Some v \<longrightarrow>
        passed_headers ?init k = Some v"
      by (simp add: layers)
    have b: "own_map (get_prop options ''headers'') ''Content-Type'' = None \<longrightarrow>
        passed_headers ?init ''Content-Type'' = Some (JStr (contentType (self s)))"
      by (simp add: layers map_add_def)
    have c: "own_map (get_prop options ''headers'') ''Authorization'' = None \<longrightarrow>
        passed_headers ?init ''Authorization'' = Some (JStr auth)"
      by (simp add: layers map_add_def)
    have "\<exists>init. request P u options s = fetched P u init s1
          \<and> passed_headers init =
               own_map (get_prop (fetchOptions (self s)) ''headers'')
               ++ [''Content-Type'' \<mapsto> JStr (contentType (self s)), ''Authorization'' \<mapsto> JStr auth]
               ++ own_map (get_prop options ''headers'')
          \<and> (\<forall>k v. own_map (get_prop options ''headers'') k = Some v \<longrightarrow>
                 passed_headers init k = Some v)
          \<and> (own_map (get_prop options ''headers'') ''Content-Type'' = None \<longrightarrow>
                 passed_headers init ''Content-Type'' = Some (JStr (contentType (self s))))
          \<and> (own_map (get_prop options ''headers'') ''Authorization'' = None \<longrightarrow>
                 passed_headers init ''Authorization'' = Some (JStr auth))"
      by (rule exI [of _ ?init]) (intro conjI run layers a b c)
    with Pair Inr show ?thesis by simp
  qed
qed

theorem request_header_layers_witness:
  "fst (request (echo_platform (describe_headers [''X-Trace'', ''Content-Type'', ''Authorization'']))
         ''https://api.test/items'' test_options
         (test_state test_client))
   = Inr (RetValue (JStr ''1 application/json Basic z''))"
proof -
  let ?s = "test_state test_client"
  let ?d = "describe_headers [''X-Trace'', ''Content-Type'', ''Authorization'']"
  let ?P = "echo_platform ?d"
  have evaluated: "fst (request ?P ''https://api.test/items'' test_options ?s)
      = Inr (RetValue (JStr ''1 application/json Basic z''))"
    by code_simp
  have auth: "getAuthorization ?s = (Inr ''Bearer t'', ?s)"
    by (simp add: getAuthorization_def test_state_def test_client_fields)
  have own: "own_map (get_prop test_options ''headers'') = [''Authorization'' \<mapsto> JStr ''Basic z'']"
    by (simp add: test_options_value own_map_JObj)
  have dflt: "own_map (get_prop (fetchOptions (self ?s)) ''headers'')
      = [''Content-Type'' \<mapsto> JStr ''text/plain'', ''X-Trace'' \<mapsto> JStr ''1'']"
    by (simp add: test_state_def test_client_fields own_map_JObj)
  have ct: "contentType (self ?s) = ''application/json''"
    and r: "resolver (self ?s) = (\<lambda>res. no_assignments (response_json test_platform res))"
    by (simp_all add: test_state_def test_client_fields)
  from request_header_layers [where s = ?s and P = ?P and u = "''https://api.test/items''"
      and options = test_options]
  obtain init where run: "request ?P ''https://api.test/items'' test_options ?s
        = fetched ?P ''https://api.test/items'' init ?s"
    and layers: "passed_headers init =
       own_map (get_prop (fetchOptions (self ?s)) ''headers'')
       ++ [''Content-Type'' \<mapsto> JStr (contentType (self ?s)), ''Authorization'' \<mapsto> JStr ''Bearer t'']
       ++ own_map (get_prop test_options ''headers'')"
    unfolding auth by auto
  have "?d ''https://api.test/items'' init = ''1 application/json Basic z''"
    by (simp add: shown_header layers own dflt ct)
  with echoed [OF r, where d = ?d and u = "''https://api.test/items''"
      and init = init] run
  show ?thesis by simp
qed

section \<open>Headers that are always there\<close>

lemma constructor_no_authorization:
  "option_field options authorization_opt = None \<Longrightarrow>
   authorization (constructor P rt options) = AuthString []"
  by (simp add: constructor_def)

lemma plain_client_fields:
  "root (constructor test_platform ''https://api.test'' None) = ''https://api.test''"
  "authorization (constructor test_platform ''https://api.test'' None) = AuthString []"
  "contentType (constructor test_platform ''https://api.test'' None) = ''application/json''"
  "fetchOptions (constructor test_platform ''https://api.test'' None) = JObj []"
  "resolver (constructor test_platform ''https://api.test'' None)
     = (\<lambda>res. no_assignments (response_json test_platform res))"
  by (simp_all add: constructor_def option_field_def)

text \<open>
  Claim C10: for every call of \<^verbatim>\<open>request\<close> the headers passed to \<^verbatim>\<open>fetch\<close> have a
  \<open>Content-Type\<close> and an \<open>Authorization\<close> key, which hold the client's content type and
  the resolved authorization wherever the per-call headers have no entry of the same
  name; and on a client constructed without an authorization option \<^verbatim>\<open>fetch\<close> is
  called with the \<open>Authorization\<close> header \<open>''''\<close>, the empty string, unless the per-call
  headers have their own.  What \<^verbatim>\<open>request\<close> returns is what the platform's \<^verbatim>\<open>fetch\<close>, run
  on options with these headers, and \<^verbatim>\<open>resolve\<close> make of it.
\<close>

theorem request_headers_present:
  "(case getAuthorization s of
      (Inl e, s1) \<Rightarrow> request P u options s = (Inl e, s1)
    | (Inr auth, s1) \<Rightarrow>
        (\<exists>init. request P u options s = fetched P u init s1
           \<and> passed_headers init ''Content-Type'' \<noteq> None
           \<and> passed_headers init ''Authorization'' \<noteq> None
           \<and> (own_map (get_prop options ''headers'') ''Content-Type'' = None \<longrightarrow>
                 passed_headers init ''Content-Type'' = Some (JStr (contentType (self s))))
           \<and> (own_map (get_prop options ''headers'') ''Authorization'' = None \<longrightarrow>
                 passed_headers init ''Authorization'' = Some (JStr auth))))
   \<and> (self s = constructor P' rt ropts \<and> option_field ropts authorization_opt = None \<longrightarrow>
        (\<exists>init. request P u options s = fetched P u init s
           \<and> (own_map (get_prop options ''headers'') ''Authorization'' = None \<longrightarrow>
                 passed_headers init ''Authorization'' = Some (JStr []))))"
proof -
  have present: "passed_headers (request_init (self s) (default_empty options) auth) ''Content-Type'' \<noteq> None
      \<and> passed_headers (request_init (self s) (default_empty options) auth) ''Authorization'' \<noteq> None
      \<and> (own_map (get_prop options ''headers'') ''Content-Type'' = None \<longrightarrow>
            passed_headers (request_init (self s) (default_empty options) auth) ''Content-Type''
              = Some (JStr (contentType (self s))))
      \<and> (own_map (get_prop options ''headers'') ''Authorization'' = None \<longrightarrow>
            passed_headers (request_init (self s) (default_empty options) auth) ''Authorization''
              = Some (JStr auth))" for auth
    by (simp add: request_init_headers map_add_def split: option.splits)
  have first: "case getAuthorization s of
      (Inl e, s1) \<Rightarrow> request P u options s = (Inl e, s1)
    | (Inr auth, s1) \<Rightarrow>
        (\<exists>init. request P u options s = fetched P u init s1
           \<and> passed_headers init ''Content-Type'' \<noteq> None
           \<and> passed_headers init ''Authorization'' \<noteq> None
           \<and> (own_map (get_prop options ''headers'') ''Content-Type'' = None \<longrightarrow>
                 passed_headers init ''Content-Type'' = Some (JStr (contentType (self s))))
           \<and> (own_map (get_prop options ''headers'') ''Authorization'' = None \<longrightarrow>
                 passed_headers init ''Authorization'' = Some (JStr auth)))"
  proof (cases "getAuthorization s")
    case (Pair r s1)
    show ?thesis
    proof (cases r)
      case (Inl e)
      with Pair show ?thesis by (simp add: request_def)
    next
      case (Inr auth)
      have run: "request P u options s
          = fetched P u (request_init (self s) (default_empty options) auth) s1"
        using Pair Inr unfolding request_def Let_def by simp
      have "\<exists>init. request P u options s = fetched P u init s1
           \<and> passed_headers init ''Content-Type'' \<noteq> None
           \<and> passed_headers init ''Authorization'' \<noteq> None
           \<and> (own_map (get_prop options ''headers'') ''Content-Type'' = None \<longrightarrow>
                 passed_headers init ''Content-Type'' = Some (JStr (contentType (self s))))
           \<and> (own_map (get_prop options ''headers'') ''Authorization'' = None \<longrightarrow>
                 passed_headers init ''Authorization'' = Some (JStr auth))"
        by (rule exI [of _ "request_init (self s) (default_empty options) auth"])
          (rule conjI [OF run present])
      with Pair Inr show ?thesis by simp
    qed
  qed
  have second: "self s = constructor P' rt ropts \<and> option_field ropts authorization_opt = None \<longrightarrow>
        (\<exists>init. request P u options s = fetched P u init s
           \<and> (own_map (get_prop options ''headers'') ''Authorization'' = None \<longrightarrow>
                 passed_headers init ''Authorization'' = Some (JStr [])))"
  proof
    assume a: "self s = constructor P' rt ropts \<and> option_field ropts authorization_opt = None"
    then have "authorization (self s) = AuthString []"
      by (simp add: constructor_no_authorization)
    then have "getAuthorization s = (Inr [], s)"
      by (simp add: getAuthorization_def)
    then have run: "request P u options s
        = fetched P u (request_init (self s) (default_empty options) []) s"
      unfolding request_def Let_def by simp
    from present [of "[]"]
    have h: "own_map (get_prop options ''headers'') ''Authorization'' = None \<longrightarrow>
        passed_headers (request_init (self s) (default_empty options) []) ''Authorization''
          = Some (JStr [])"
      by simp
    show "\<exists>init. request P u options s = fetched P u init s
           \<and> (own_map (get_prop options ''headers'') ''Authorization'' = None \<longrightarrow>
                 passed_headers init ''Authorization'' = Some (JStr []))"
      by (rule exI [of _ "request_init (self s) (default_empty options) []"])
        (rule conjI [OF run h])
  qed
  from first second show ?thesis by (rule conjI)
qed

theorem request_headers_present_witness:
  "fst (request (echo_platform (describe_headers [''Content-Type'', ''Authorization'']))
         ''https://api.test/items'' JUndefined
         (test_state (constructor test_platform ''https://api.test'' None)))
   = Inr (RetValue (JStr ''application/json ''))"
proof -
  let ?s = "test_state (constructor test_platform ''https://api.test'' None)"
  let ?d = "describe_headers [''Content-Type'', ''Authorization'']"
  let ?P = "echo_platform ?d"
  have evaluated: "fst (request ?P ''https://api.test/items'' JUndefined ?s)
      = Inr (RetValue (JStr ''application/json ''))"
    by code_simp
  have auth: "getAuthorization ?s = (Inr [], ?s)"
    by (simp add: getAuthorization_def test_state_def plain_client_fields)
  have h: "own_map (get_prop JUndefined ''headers'') ''Content-Type'' = None"
    "own_map (get_prop JUndefined ''headers'') ''Authorization'' = None"
    by (simp_all add: own_map_def)
  have ct: "contentType (self ?s) = ''application/json''"
    and r: "resolver (self ?s) = (\<lambda>res. no_assignments (response_json test_platform res))"
    by (simp_all add: test_state_def plain_client_fields)
  from request_headers_present [where s = ?s and P = ?P and u = "''https://api.test/items''"
      and options = JUndefined, THEN conjunct1]
  have "\<exists>init. request ?P ''https://api.test/items'' JUndefined ?s
        = fetched ?P ''https://api.test/items'' init ?s
      \<and> passed_headers init ''Content-Type'' \<noteq> None
      \<and> passed_headers init ''Authorization'' \<noteq> None
      \<and> (own_map (get_prop JUndefined ''headers'') ''Content-Type'' = None \<longrightarrow>
            passed_headers init ''Content-Type'' = Some (JStr (contentType (self ?s))))
      \<and> (own_map (get_prop JUndefined ''headers'') ''Authorization'' = None \<longrightarrow>
            passed_headers init ''Authorization'' = Some (JStr []))"
    unfolding auth by (simp only: prod.case sum.case)
  then obtain init where run: "request ?P ''https://api.test/items'' JUndefined ?s
        = fetched ?P ''https://api.test/items'' init ?s"
    and c: "passed_headers init ''Content-Type'' = Some (JStr ''application/json'')"
    and a: "passed_headers init ''Authorization'' = Some (JStr [])"
    using h ct by auto
  have "?d ''https://api.test/items'' init = ''application/json ''"
    by (simp add: shown_header c a)
  with echoed [OF r, where d = ?d and u = "''https://api.test/items''" and init = init] run
  show ?thesis by simp
qed

section \<open>Who writes the configuration\<close>

lemma no_assignments_quiet: "snd (snd (no_assignments f w)) = []"
  by (simp add: no_assignments_def split: prod.splits)

lemma getAuthorization_self:
  "authorization_quiet (authorization (self s)) \<Longrightarrow> self (snd (getAuthorization s)) = self s"
proof (cases "authorization (self s)")
  case (AuthString a)
  then show ?thesis by (simp add: getAuthorization_def)
next
  case (AuthResolver f)
  assume "authorization_quiet (authorization (self s))"
  with AuthResolver have "snd (snd (f (world s))) = []" by simp
  with AuthResolver show ?thesis
    by (cases "f (world s)") (simp add: getAuthorization_def called_fields apply_no_assignments)
qed

lemma resolve_self: "quiet (self s) \<Longrightarrow> self (snd (resolve res s)) = self s"
proof -
  assume q: "quiet (self s)"
  then have r: "snd (snd (resolver (self s) res (world s))) = []"
    and h: "snd (snd (errorHandler (self s) (status res) res (world s))) = []"
    by (simp_all add: quiet_def)
  show ?thesis
  proof (cases "status res \<ge> 400")
    case True
    with h show ?thesis
      by (cases "errorHandler (self s) (status res) res (world s)")
        (auto simp: resolve_def called_fields apply_no_assignments split: sum.splits)
  next
    case False
    with r show ?thesis
      by (cases "resolver (self s) res (world s)")
        (auto simp: resolve_def called_fields apply_no_assignments)
  qed
qed

lemma fetched_self: "quiet (self s) \<Longrightarrow> self (snd (fetched P u init s)) = self s"
proof -
  assume q: "quiet (self s)"
  obtain r w where f: "fetch P u init (world s) = (r, w)" by (cases "fetch P u init (world s)")
  have c: "self (called (FetchCall u init) w [] s) = self s"
    by (simp add: called_fields apply_no_assignments)
  show ?thesis
  proof (cases r)
    case (Inl e)
    with f c show ?thesis by simp
  next
    case (Inr res)
    from q c have "quiet (self (called (FetchCall u init) w [] s))" by simp
    then have "self (snd (resolve res (called (FetchCall u init) w [] s)))
        = self (called (FetchCall u init) w [] s)"
      by (rule resolve_self)
    with f c Inr show ?thesis by simp
  qed
qed

lemma request_self: "quiet (self s) \<Longrightarrow> self (snd (request P u options s)) = self s"
proof -
  assume q: "quiet (self s)"
  then have a: "authorization_quiet (authorization (self s))" by (simp add: quiet_def)
  obtain r s1 where g: "getAuthorization s = (r, s1)" by (cases "getAuthorization s")
  with getAuthorization_self [OF a] have s1: "self s1 = self s" by simp
  show ?thesis
  proof (cases r)
    case (Inl e)
    with g s1 show ?thesis by (simp add: request_def)
  next
    case (Inr auth)
    from q s1 have "quiet (self s1)" by simp
    then have "self (snd (fetched P u (request_init (self s) (default_empty options) auth) s1))
        = self s1"
      by (rule fetched_self)
    with g s1 Inr show ?thesis unfolding request_def Let_def by simp
  qed
qed

lemma rotating_client_fields:
  "root rotating_client = ''https://api.test''"
  "authorization rotating_client = AuthResolver counting_resolver"
  "contentType rotating_client = ''application/json''"
  "fetchOptions rotating_client = JObj []"
  "resolver rotating_client = (\<lambda>res. no_assignments (response_json test_platform res))"
  "errorHandler rotating_client = (\<lambda>code res. no_assignments (console_error test_platform code res))"
  by (simp_all add: rotating_client_def constructor_def option_field_def)

lemma rotating_client_quiet: "quiet rotating_client"
  by (simp add: quiet_def rotating_client_fields no_assignments_quiet counting_resolver_def)

text \<open>
  Claim C9, as stated: after any call of a public operation every field of the
  client's configuration equals its value before the call.  \<^verbatim>\<open>resolve\<close> calls the error
  handler as a method of the client, \<^verbatim>\<open>this.errorHandler(status, response)\<close>; with a
  handler that assigns to \<^verbatim>\<open>this.root\<close>, a \<^verbatim>\<open>resolve\<close> of a 404 response, and a \<^verbatim>\<open>get\<close> that
  is answered with 404, leave the client with another root.
\<close>

theorem configuration_counterexample:
  "root (self (test_state moving_client)) = ''https://api.test''
   \<and> root (self (snd (resolve \<lparr>status = 404, payload = ''gone''\<rparr> (test_state moving_client))))
       = ''https://other.test''
   \<and> root (self (snd (get test_platform ''missing'' JUndefined JUndefined (test_state moving_client))))
       = ''https://other.test''"
  by code_simp

text \<open>
  Claim C9, amended: no public operation (\<^verbatim>\<open>get\<close>, \<^verbatim>\<open>post\<close>, \<^verbatim>\<open>put\<close>, \<^verbatim>\<open>delete\<close>, \<^verbatim>\<open>request\<close>,
  \<^verbatim>\<open>resolve\<close>, \<^verbatim>\<open>getAuthorization\<close>, \<^verbatim>\<open>createURL\<close>) assigns to a field of the client's
  configuration itself; the fields change only by what the caller's callbacks (the
  authorization resolver, the success resolver, the error handler) assign.  After
  any call on a client whose callbacks assign nothing to it, every field equals its
  value before the call, whether the call returns or throws.
\<close>

theorem configuration_unchanged:
  "quiet (self (s :: 'w state)) \<longrightarrow>
     self (snd (get P uri query options s)) = self s
     \<and> self (snd (post P uri body options s)) = self s
     \<and> self (snd (put P uri body options s)) = self s
     \<and> self (snd (delete P uri options s)) = self s
     \<and> self (snd (request P u options s)) = self s
     \<and> self (snd (resolve res s)) = self s
     \<and> self (snd (getAuthorization s)) = self s
     \<and> self (snd (createURL P uri s)) = self s"
proof
  assume q: "quiet (self s)"
  have ga: "self (snd (getAuthorization s)) = self s"
  proof (cases "authorization (self s)")
    case (AuthString a)
    then show ?thesis by (simp add: getAuthorization_def)
  next
    case (AuthResolver f)
    with q have "snd (snd (f (world s))) = []" by (simp add: quiet_def)
    with AuthResolver show ?thesis
      by (cases "f (world s)") (simp add: getAuthorization_def called_def apply_assignments_def)
  qed
  have rs: "self (snd (resolve r t)) = self t" if "quiet (self t)" for r and t :: "'w state"
  proof -
    from that have "snd (snd (resolver (self t) r (world t))) = []"
      and "snd (snd (errorHandler (self t) (status r) r (world t))) = []"
      by (simp_all add: quiet_def)
    then show ?thesis
      by (cases "resolver (self t) r (world t)";
          cases "errorHandler (self t) (status r) r (world t)")
        (auto simp: resolve_def called_def apply_assignments_def split: sum.splits)
  qed
  have rq: "self (snd (request P v opts s)) = self s" for v opts
  proof -
    obtain r s1 where g: "getAuthorization s = (r, s1)" by (cases "getAuthorization s")
    with ga have s1: "self s1 = self s" by simp
    show ?thesis
    proof (cases r)
      case (Inl e)
      with g s1 show ?thesis by (simp add: request_def)
    next
      case (Inr auth)
      let ?init = "request_init (self s) (default_empty opts) auth"
      obtain x w where f: "fetch P v ?init (world s1) = (x, w)"
        by (cases "fetch P v ?init (world s1)")
      have c: "self (called (FetchCall v ?init) w [] s1) = self s"
        by (simp add: called_def apply_assignments_def s1)
      show ?thesis
      proof (cases x)
        case (Inl e)
        with g Inr f c show ?thesis by (simp add: request_def Let_def)
      next
        case (Inr response)
        from q c have "quiet (self (called (FetchCall v ?init) w [] s1))" by simp
        from rs [OF this] c
        have "self (snd (resolve response (called (FetchCall v ?init) w [] s1))) = self s"
          by simp
        with g \<open>r = Inr auth\<close> f Inr show ?thesis by (simp add: request_def Let_def)
      qed
    qed
  qed
  have cu: "snd (createURL P uri s) = s"
    by (simp add: createURL_def split: option.splits)
  have "self (snd (get P uri query options s)) = self s"
    by (simp add: get_def createURL_def rq split: option.splits sum.splits)
  moreover have "self (snd (post P uri body options s)) = self s"
    by (simp add: post_def createURL_def rq split: option.splits)
  moreover have "self (snd (put P uri body options s)) = self s"
    by (simp add: put_def createURL_def rq split: option.splits)
  moreover have "self (snd (delete P uri options s)) = self s"
    by (simp add: delete_def createURL_def rq split: option.splits)
  moreover note rq [of u options] rs [OF q, of res] ga
  moreover have "self (snd (createURL P uri s)) = self s" by (simp only: cu)
  ultimately show "self (snd (get P uri query options s)) = self s
     \<and> self (snd (post P uri body options s)) = self s
     \<and> self (snd (put P uri body options s)) = self s
     \<and> self (snd (delete P uri options s)) = self s
     \<and> self (snd (request P u options s)) = self s
     \<and> self (snd (resolve res s)) = self s
     \<and> self (snd (getAuthorization s)) = self s
     \<and> self (snd (createURL P uri s)) = self s"
    by (intro conjI)
qed

theorem configuration_unchanged_witness:
  "self (snd (post test_platform ''items'' (JStr ''x'') JUndefined (test_state rotating_client)))
   = rotating_client
   \<and> world (snd (post test_platform ''items'' (JStr ''x'') JUndefined (test_state rotating_client)))
   = 2"
proof -
  let ?s = "test_state rotating_client"
  have q: "quiet (self ?s)" by (simp add: test_state_def rotating_client_quiet)
  have w: "world (snd (post test_platform ''items'' (JStr ''x'') JUndefined ?s)) = 2"
    by (simp add: post_def createURL_def createURL_string_def is_sep_def test_platform_def
        test_state_def rotating_client_fields request_def getAuthorization_def
        counting_resolver_def called_def resolve_def Let_def url_toString_def
        no_assignments_def apply_assignments_def)
  from configuration_unchanged [where s = ?s and P = test_platform and uri = "''items''"
      and body = "JStr ''x''" and options = JUndefined] q w
  show ?thesis by (simp add: test_state_def)
qed

section \<open>Authorization\<close>

lemma getAuthorization_resolver:
  "authorization (self s) = AuthResolver f \<Longrightarrow>
   getAuthorization s =
     (fst (f (world s)),
      called AuthorizationCall (fst (snd (f (world s)))) (snd (snd (f (world s)))) s)"
  by (cases "f (world s)") (simp add: getAuthorization_def)

text \<open>
  Claim C7: for every call of \<^verbatim>\<open>request\<close>: a configured authorization string is the
  \<open>Authorization\<close> value as it is, and no resolver is called; a configured function is
  called exactly once in the call, on the world as it then is, and the string it
  returns is the \<open>Authorization\<close> value of the headers that the platform's \<^verbatim>\<open>fetch\<close> is
  run on (the header itself wherever the per-call headers have none of that name).
  The function is called again in every call: of two calls in a row in which it
  returns different strings, each runs \<^verbatim>\<open>fetch\<close> on its own string, so \<^verbatim>\<open>fetch\<close> is given
  two different \<open>Authorization\<close> headers.
\<close>

theorem authorization_resolved_per_request:
  "(\<forall>a. authorization (self (s :: 'w state)) = AuthString a \<longrightarrow>
      getAuthorization s = (Inr a, s)
      \<and> count_list (new_calls s (snd (request P u options s))) AuthorizationCall = 0
      \<and> (\<exists>init. request P u options s = fetched P u init s
            \<and> passed_headers init =
                 own_map (get_prop (fetchOptions (self s)) ''headers'')
                 ++ [''Content-Type'' \<mapsto> JStr (contentType (self s)), ''Authorization'' \<mapsto> JStr a]
                 ++ own_map (get_prop options ''headers'')
            \<and> (own_map (get_prop options ''headers'') ''Authorization'' = None \<longrightarrow>
                  passed_headers init ''Authorization'' = Some (JStr a))))
   \<and> (\<forall>f. authorization (self s) = AuthResolver f \<longrightarrow>
      getAuthorization s =
        (fst (f (world s)),
         called AuthorizationCall (fst (snd (f (world s)))) (snd (snd (f (world s)))) s)
      \<and> count_list (new_calls s (snd (request P u options s))) AuthorizationCall = 1
      \<and> (\<forall>e. fst (f (world s)) = Inl e \<longrightarrow>
            request P u options s = (Inl e, snd (getAuthorization s)))
      \<and> (\<forall>a. fst (f (world s)) = Inr a \<longrightarrow>
            (\<exists>init. request P u options s = fetched P u init (snd (getAuthorization s))
               \<and> passed_headers init =
                    own_map (get_prop (fetchOptions (self s)) ''headers'')
                    ++ [''Content-Type'' \<mapsto> JStr (contentType (self s)), ''Authorization'' \<mapsto> JStr a]
                    ++ own_map (get_prop options ''headers'')
               \<and> (own_map (get_prop options ''headers'') ''Authorization'' = None \<longrightarrow>
                     passed_headers init ''Authorization'' = Some (JStr a))))
      \<and> (\<forall>g a1 a2. fst (f (world s)) = Inr a1
            \<and> authorization (self (snd (request P u options s))) = AuthResolver g
            \<and> fst (g (world (snd (request P u options s)))) = Inr a2 \<and> a1 \<noteq> a2
            \<and> own_map (get_prop options ''headers'') ''Authorization'' = None
            \<and> own_map (get_prop options2 ''headers'') ''Authorization'' = None \<longrightarrow>
            (\<exists>init1 init2.
               request P u options s = fetched P u init1 (snd (getAuthorization s))
               \<and> request P u2 options2 (snd (request P u options s))
                   = fetched P u2 init2 (snd (getAuthorization (snd (request P u options s))))
               \<and> passed_headers init1 ''Authorization'' = Some (JStr a1)
               \<and> passed_headers init2 ''Authorization'' = Some (JStr a2)
               \<and> passed_headers init1 ''Authorization'' \<noteq> passed_headers init2 ''Authorization'')))"
proof -
  have resolved: "\<exists>init. request P v opts t = fetched P v init t1
           \<and> passed_headers init =
                own_map (get_prop (fetchOptions (self t)) ''headers'')
                ++ [''Content-Type'' \<mapsto> JStr (contentType (self t)), ''Authorization'' \<mapsto> JStr auth]
                ++ own_map (get_prop opts ''headers'')
           \<and> (own_map (get_prop opts ''headers'') ''Authorization'' = None \<longrightarrow>
                 passed_headers init ''Authorization'' = Some (JStr auth))"
    if "getAuthorization t = (Inr auth, t1)" for v opts auth and t t1 :: "'w state"
  proof -
    let ?init = "request_init (self t) (default_empty opts) auth"
    have run: "request P v opts t = fetched P v ?init t1"
      using that unfolding request_def Let_def by simp
    have layers: "passed_headers ?init =
        own_map (get_prop (fetchOptions (self t)) ''headers'')
        ++ [''Content-Type'' \<mapsto> JStr (contentType (self t)), ''Authorization'' \<mapsto> JStr auth]
        ++ own_map (get_prop opts ''headers'')"
      by (rule request_init_headers)
    have a: "own_map (get_prop opts ''headers'') ''Authorization'' = None \<longrightarrow>
        passed_headers ?init ''Authorization'' = Some (JStr auth)"
      by (simp add: layers map_add_def)
    show ?thesis by (rule exI [of _ ?init]) (intro conjI run layers a)
  qed
  have counted: "count_list (new_calls s (snd (request P u options s))) AuthorizationCall =
      (case authorization (self s) of AuthString a \<Rightarrow> 0 | AuthResolver f \<Rightarrow> 1)"
    by (auto simp: request_def Let_def getAuthorization_def resolve_def called_def new_calls_def
        split: prod.splits sum.splits auth_value.splits)
  show ?thesis
  proof (intro conjI allI impI)
  fix a assume "authorization (self s) = AuthString a"
  then show "getAuthorization s = (Inr a, s)" by (simp add: getAuthorization_def)
next
  fix a assume "authorization (self s) = AuthString a"
  then show "count_list (new_calls s (snd (request P u options s))) AuthorizationCall = 0"
    by (simp add: counted)
next
  fix a assume "authorization (self s) = AuthString a"
  then have "getAuthorization s = (Inr a, s)" by (simp add: getAuthorization_def)
  then show "\<exists>init. request P u options s = fetched P u init s
            \<and> passed_headers init =
                 own_map (get_prop (fetchOptions (self s)) ''headers'')
                 ++ [''Content-Type'' \<mapsto> JStr (contentType (self s)), ''Authorization'' \<mapsto> JStr a]
                 ++ own_map (get_prop options ''headers'')
            \<and> (own_map (get_prop options ''headers'') ''Authorization'' = None \<longrightarrow>
                  passed_headers init ''Authorization'' = Some (JStr a))"
    by (rule resolved)
next
  fix f assume "authorization (self s) = AuthResolver f"
  then show "getAuthorization s =
        (fst (f (world s)),
         called AuthorizationCall (fst (snd (f (world s)))) (snd (snd (f (world s)))) s)"
    by (cases "f (world s)") (simp add: getAuthorization_def)
next
  fix f assume "authorization (self s) = AuthResolver f"
  then show "count_list (new_calls s (snd (request P u options s))) AuthorizationCall = 1"
    by (simp add: counted)
next
  fix f e assume f: "authorization (self s) = AuthResolver f" and e: "fst (f (world s)) = Inl e"
  from getAuthorization_resolver [OF f] e
  obtain s1 where "getAuthorization s = (Inl e, s1)" by simp
  then show "request P u options s = (Inl e, snd (getAuthorization s))"
    by (simp add: request_def)
next
  fix f a assume f: "authorization (self s) = AuthResolver f" and a: "fst (f (world s)) = Inr a"
  from getAuthorization_resolver [OF f] a
  have "getAuthorization s = (Inr a, snd (getAuthorization s))" by simp
  then show "\<exists>init. request P u options s = fetched P u init (snd (getAuthorization s))
               \<and> passed_headers init =
                    own_map (get_prop (fetchOptions (self s)) ''headers'')
                    ++ [''Content-Type'' \<mapsto> JStr (contentType (self s)), ''Authorization'' \<mapsto> JStr a]
                    ++ own_map (get_prop options ''headers'')
               \<and> (own_map (get_prop options ''headers'') ''Authorization'' = None \<longrightarrow>
                     passed_headers init ''Authorization'' = Some (JStr a))"
    by (rule resolved)
next
  fix f g a1 a2
  let ?s' = "snd (request P u options s)"
  assume f: "authorization (self s) = AuthResolver f"
    and h: "fst (f (world s)) = Inr a1
            \<and> authorization (self ?s') = AuthResolver g
            \<and> fst (g (world ?s')) = Inr a2 \<and> a1 \<noteq> a2
            \<and> own_map (get_prop options ''headers'') ''Authorization'' = None
            \<and> own_map (get_prop options2 ''headers'') ''Authorization'' = None"
  from h have g: "authorization (self ?s') = AuthResolver g" by simp
  from getAuthorization_resolver [OF f] h
  have g1: "getAuthorization s = (Inr a1, snd (getAuthorization s))" by simp
  from getAuthorization_resolver [OF g] h
  have g2: "getAuthorization ?s' = (Inr a2, snd (getAuthorization ?s'))" by simp
  from resolved [OF g1, of u options] h
  obtain init1 where 1: "request P u options s = fetched P u init1 (snd (getAuthorization s))"
    "passed_headers init1 ''Authorization'' = Some (JStr a1)" by auto
  from resolved [OF g2, of u2 options2] h
  obtain init2 where 2: "request P u2 options2 ?s' = fetched P u2 init2 (snd (getAuthorization ?s'))"
    "passed_headers init2 ''Authorization'' = Some (JStr a2)" by auto
  from h have ne: "passed_headers init1 ''Authorization'' \<noteq> passed_headers init2 ''Authorization''"
    by (simp add: 1 2)
  show "\<exists>init1 init2.
               request P u options s = fetched P u init1 (snd (getAuthorization s))
               \<and> request P u2 options2 ?s' = fetched P u2 init2 (snd (getAuthorization ?s'))
               \<and> passed_headers init1 ''Authorization'' = Some (JStr a1)
               \<and> passed_headers init2 ''Authorization'' = Some (JStr a2)
               \<and> passed_headers init1 ''Authorization'' \<noteq> passed_headers init2 ''Authorization''"
    by (rule exI [of _ init1], rule exI [of _ init2]) (intro conjI 1 2 ne)
qed
qed

lemma counting_resolver_values:
  "counting_resolver 0 = (Inr ''token-0'', 1, [])"
  "counting_resolver 2 = (Inr ''token-2'', 3, [])"
  by (simp_all add: counting_resolver_def digit_char_def char_of_eq_iff)

theorem authorization_resolved_per_request_witness:
  "fst (request (echo_platform (describe_headers [''Authorization''])) ''https://api.test/a''
         JUndefined (test_state rotating_client))
   = Inr (RetValue (JStr ''token-0''))
   \<and> fst (request (echo_platform (describe_headers [''Authorization''])) ''https://api.test/b''
         JUndefined
         (snd (request (echo_platform (describe_headers [''Authorization''])) ''https://api.test/a''
                JUndefined (test_state rotating_client))))
   = Inr (RetValue (JStr ''token-2''))"
proof -
  let ?s = "test_state rotating_client"
  let ?d = "describe_headers [''Authorization'']"
  let ?P = "echo_platform ?d"
  let ?s' = "snd (request ?P ''https://api.test/a'' JUndefined ?s)"
  have evaluated: "fst (request ?P ''https://api.test/a'' JUndefined ?s)
        = Inr (RetValue (JStr ''token-0''))
      \<and> fst (request ?P ''https://api.test/b'' JUndefined ?s') = Inr (RetValue (JStr ''token-2''))"
    by code_simp
  have q: "quiet (self ?s)" by (simp add: test_state_def rotating_client_quiet)
  have self': "self ?s' = self ?s" using q by (rule request_self)
  have a: "authorization (self ?s) = AuthResolver counting_resolver"
    by (simp add: test_state_def rotating_client_fields)
  have a': "authorization (self ?s') = AuthResolver counting_resolver"
    by (simp only: self' a)
  have w0: "world ?s = 0" by (simp add: test_state_def)
  have w1: "world ?s' = 2"
    by (simp add: request_def getAuthorization_def test_state_def rotating_client_fields
        counting_resolver_values called_def resolve_def Let_def echo_platform_fields
        echo_fetch_def no_assignments_def apply_assignments_def test_platform_def)
  have n: "own_map (get_prop JUndefined ''headers'') ''Authorization'' = None"
    by (simp add: own_map_def)
  have r: "resolver (self (snd (getAuthorization ?s)))
        = (\<lambda>res. no_assignments (response_json test_platform res))"
    "resolver (self (snd (getAuthorization ?s')))
        = (\<lambda>res. no_assignments (response_json test_platform res))"
    using q self' by (simp_all add: getAuthorization_self quiet_def test_state_def rotating_client_fields)
  have H: "fst (counting_resolver (world ?s)) = Inr ''token-0''
      \<and> authorization (self ?s') = AuthResolver counting_resolver
      \<and> fst (counting_resolver (world ?s')) = Inr ''token-2'' \<and> ''token-0'' \<noteq> ''token-2''
      \<and> own_map (get_prop JUndefined ''headers'') ''Authorization'' = None
      \<and> own_map (get_prop JUndefined ''headers'') ''Authorization'' = None"
    by (simp only: w0 w1 a' n counting_resolver_values) simp
  note T = authorization_resolved_per_request [where s = ?s and P = ?P
      and u = "''https://api.test/a''" and options = JUndefined and ?options2.0 = JUndefined
      and ?u2.0 = "''https://api.test/b''"]
  note T5 = T [THEN conjunct2, THEN spec, THEN mp, OF a, THEN conjunct2, THEN conjunct2,
      THEN conjunct2, THEN conjunct2, THEN spec, THEN spec, THEN spec, THEN mp, OF H]
  from T5 obtain init1 init2 where
    1: "request ?P ''https://api.test/a'' JUndefined ?s
        = fetched ?P ''https://api.test/a'' init1 (snd (getAuthorization ?s))"
    and 2: "request ?P ''https://api.test/b'' JUndefined ?s'
        = fetched ?P ''https://api.test/b'' init2 (snd (getAuthorization ?s'))"
    and h1: "passed_headers init1 ''Authorization'' = Some (JStr ''token-0'')"
    and h2: "passed_headers init2 ''Authorization'' = Some (JStr ''token-2'')"
    by blast
  have "?d ''https://api.test/a'' init1 = ''token-0''" "?d ''https://api.test/b'' init2 = ''token-2''"
    by (simp_all add: shown_header h1 h2)
  with echoed [OF r(1), where d = ?d and u = "''https://api.test/a''" and init = init1]
    echoed [OF r(2), where d = ?d and u = "''https://api.test/b''" and init = init2] 1 2
  show ?thesis by (simp only: simp_thms)
qed

section \<open>What the verb helpers send\<close>

text \<open>
  A helper that has built its URL calls \<^verbatim>\<open>request\<close> with the literal
  \<^verbatim>\<open>{...ps, ...options, method: verb}\<close>, where \<open>ps\<close> is what the helper writes in front of
  the per-call options (nothing, or the body).  The options that \<^verbatim>\<open>request\<close> makes of it
  have the properties of the client's \<^verbatim>\<open>fetchOptions\<close>, overridden by \<open>ps\<close>, overridden
  by the per-call options, with the method and the headers written last.
\<close>

lemma helper_init:
  assumes "map_of ps ''headers'' = None"
  shows "(\<exists>hs. own_map (request_init c (JObj (define_prop ''method'' (JStr verb)
              (spread_into ps (default_empty options)))) auth) =
            (own_map (fetchOptions c) ++ map_of ps ++ own_map options)
              (''method'' \<mapsto> JStr verb, ''headers'' \<mapsto> JObj hs))
         \<and> get_prop (request_init c (JObj (define_prop ''method'' (JStr verb)
              (spread_into ps (default_empty options)))) auth) ''method'' = JStr verb
         \<and> get_prop (request_init c (JObj (define_prop ''method'' (JStr verb)
              (spread_into ps (default_empty options)))) auth) ''body'' =
             (case own_map options ''body'' of
                Some b \<Rightarrow> b
              | None \<Rightarrow> (case map_of ps ''body'' of
                  Some b \<Rightarrow> b
                | None \<Rightarrow> get_prop (fetchOptions c) ''body''))
         \<and> passed_headers (request_init c (JObj (define_prop ''method'' (JStr verb)
              (spread_into ps (default_empty options)))) auth) =
             own_map (get_prop (fetchOptions c) ''headers'')
             ++ [''Content-Type'' \<mapsto> JStr (contentType c), ''Authorization'' \<mapsto> JStr auth]
             ++ own_map (get_prop options ''headers'')"
proof -
  let ?o = "JObj (define_prop ''method'' (JStr verb) (spread_into ps (default_empty options)))"
  let ?init = "request_init c ?o auth"
  have d: "default_empty ?o = ?o" by (simp add: default_empty_def)
  have o: "own_map ?o = (map_of ps ++ own_map options)(''method'' \<mapsto> JStr verb)"
    by (simp add: own_map_JObj map_of_define_prop map_of_spread_into own_map_default_empty)
  have m: "own_map ?init =
      (own_map (fetchOptions c) ++ map_of ps ++ own_map options)
        (''method'' \<mapsto> JStr verb, ''headers'' \<mapsto> JObj (request_headers c ?o auth))"
    by (simp add: request_init_map o)
  have all: "\<exists>hs. own_map ?init =
      (own_map (fetchOptions c) ++ map_of ps ++ own_map options)
        (''method'' \<mapsto> JStr verb, ''headers'' \<mapsto> JObj hs)"
    using m by blast
  have v: "get_prop ?init ''method'' = JStr verb"
    by (simp add: get_prop_own_map m)
  have b: "get_prop ?init ''body'' =
      (case own_map options ''body'' of
         Some b \<Rightarrow> b
       | None \<Rightarrow> (case map_of ps ''body'' of
           Some b \<Rightarrow> b
         | None \<Rightarrow> get_prop (fetchOptions c) ''body''))"
    by (simp add: get_prop_own_map m map_add_def split: option.splits)
  have oh: "get_prop ?o ''headers'' = get_prop options ''headers''"
    using assms by (simp add: get_prop_own_map o map_add_def split: option.splits)
  have h: "passed_headers ?init =
      own_map (get_prop (fetchOptions c) ''headers'')
      ++ [''Content-Type'' \<mapsto> JStr (contentType c), ''Authorization'' \<mapsto> JStr auth]
      ++ own_map (get_prop options ''headers'')"
    using request_init_headers [of c ?o auth] by (simp only: d oh)
  show ?thesis by (intro conjI all v b h)
qed

lemma default_empty_object: "default_empty (JObj ps) = JObj ps"
  by (simp add: default_empty_def)

lemma createURL_parsed:
  "fst (createURL P uri s) = Inr u \<Longrightarrow> createURL P uri s = (Inr u, s)"
  by (auto simp: createURL_def split: option.splits)

section \<open>Bodies of POST and PUT\<close>

text \<open>
  Claim C5: for every body argument, with per-call options that bring no body of their
  own (none are needed): a \<^verbatim>\<open>post\<close> with a body that is not a string sends
  \<^verbatim>\<open>JSON.stringify(body)\<close> as the body of the outgoing request and a \<^verbatim>\<open>post\<close> with a string
  sends the string unchanged; a \<^verbatim>\<open>put\<close> sends \<^verbatim>\<open>JSON.stringify(body)\<close> for every body, also
  for a string, which goes out as its JSON form.  Sending is running the platform's
  \<^verbatim>\<open>fetch\<close> on the built URL and on options with that body, which happens whenever the
  URL parses and the authorization resolves; the helper returns what \<^verbatim>\<open>fetch\<close> and
  \<^verbatim>\<open>resolve\<close> make of it.
\<close>

theorem post_put_body:
  assumes "own_map options ''body'' = None"
    and "fst (createURL P uri s) = Inr u"
    and "getAuthorization s = (Inr auth, s1)"
  shows "(\<exists>init. post P uri body options s = fetched P (url_toString u) init s1
            \<and> (\<forall>b. body = JStr b \<longrightarrow> get_prop init ''body'' = JStr b)
            \<and> ((\<forall>b. body \<noteq> JStr b) \<longrightarrow> get_prop init ''body'' = JSON_stringify P body))
         \<and> (\<exists>init. put P uri body options s = fetched P (url_toString u) init s1
            \<and> get_prop init ''body'' = JSON_stringify P body)"
proof
  let ?b = "case body of JStr b \<Rightarrow> body | _ \<Rightarrow> JSON_stringify P body"
  let ?o = "JObj (define_prop ''method'' (JStr ''POST'')
      (spread_into (define_prop ''body'' ?b []) (default_empty options)))"
  let ?init = "request_init (self s) ?o auth"
  have run: "post P uri body options s = fetched P (url_toString u) ?init s1"
    using assms(3)
    unfolding post_def request_def Let_def createURL_parsed [OF assms(2)] default_empty_object
    by simp
  have h: "map_of (define_prop ''body'' ?b []) ''headers'' = None"
    by (simp add: map_of_define_prop)
  from helper_init [OF h, of "self s" "''POST''" options auth] assms(1)
  have b: "get_prop ?init ''body'' = ?b"
    by (simp add: map_of_define_prop)
  have 1: "\<forall>b. body = JStr b \<longrightarrow> get_prop ?init ''body'' = JStr b"
    using b by (cases body) simp_all
  have 2: "(\<forall>b. body \<noteq> JStr b) \<longrightarrow> get_prop ?init ''body'' = JSON_stringify P body"
    using b by (cases body) simp_all
  show "\<exists>init. post P uri body options s = fetched P (url_toString u) init s1
            \<and> (\<forall>b. body = JStr b \<longrightarrow> get_prop init ''body'' = JStr b)
            \<and> ((\<forall>b. body \<noteq> JStr b) \<longrightarrow> get_prop init ''body'' = JSON_stringify P body)"
    by (rule exI [of _ ?init]) (intro conjI run 1 2)
next
  let ?o = "JObj (define_prop ''method'' (JStr ''PUT'')
      (spread_into (define_prop ''body'' (JSON_stringify P body) []) (default_empty options)))"
  let ?init = "request_init (self s) ?o auth"
  have run: "put P uri body options s = fetched P (url_toString u) ?init s1"
    using assms(3)
    unfolding put_def request_def Let_def createURL_parsed [OF assms(2)] default_empty_object
    by simp
  have h: "map_of (define_prop ''body'' (JSON_stringify P body) []) ''headers'' = None"
    by (simp add: map_of_define_prop)
  from helper_init [OF h, of "self s" "''PUT''" options auth] assms(1)
  have b: "get_prop ?init ''body'' = JSON_stringify P body"
    by (simp add: map_of_define_prop)
  show "\<exists>init. put P uri body options s = fetched P (url_toString u) init s1
            \<and> get_prop init ''body'' = JSON_stringify P body"
    by (rule exI [of _ ?init]) (intro conjI run b)
qed

lemma shown_body:
  "get_prop init ''body'' = JStr t \<Longrightarrow> describe_body u init = t"
  by (simp add: describe_body_def shown_def)

lemma test_client_run:
  "fst (createURL (echo_platform d) ''items'' (test_state test_client))
     = Inr \<lparr>location = ''https://api.test/items'', searchParams = [], hash = []\<rparr>"
  "getAuthorization (test_state test_client) = (Inr ''Bearer t'', test_state test_client)"
  "resolver (self (test_state test_client))
     = (\<lambda>res. no_assignments (response_json test_platform res))"
  by (simp_all add: createURL_def createURL_string_def getAuthorization_def test_state_def
      test_client_fields echo_platform_fields test_platform_def is_sep_def)

theorem post_put_body_witness:
  "fst (post (echo_platform describe_body) ''items'' (JStr ''hi'') JUndefined
         (test_state test_client))
     = Inr (RetValue (JStr ''hi''))
   \<and> fst (put (echo_platform describe_body) ''items'' (JStr ''hi'') JUndefined
         (test_state test_client))
     = Inr (RetValue (JStr [CHR 0x22, CHR ''h'', CHR ''i'', CHR 0x22]))"
proof -
  let ?s = "test_state test_client"
  let ?P = "echo_platform describe_body"
  let ?u = "\<lparr>location = ''https://api.test/items'', searchParams = [], hash = []\<rparr>"
  have evaluated: "fst (post ?P ''items'' (JStr ''hi'') JUndefined ?s) = Inr (RetValue (JStr ''hi''))
      \<and> fst (put ?P ''items'' (JStr ''hi'') JUndefined ?s)
        = Inr (RetValue (JStr [CHR 0x22, CHR ''h'', CHR ''i'', CHR 0x22]))"
    by code_simp
  have n: "own_map JUndefined ''body'' = None" by (simp add: own_map_def)
  have j: "JSON_stringify ?P (JStr ''hi'') = JStr [CHR 0x22, CHR ''h'', CHR ''i'', CHR 0x22]"
    by (simp add: echo_platform_fields test_stringify_def)
  note T = post_put_body [OF n test_client_run(1) [where d = describe_body] test_client_run(2),
      where body = "JStr ''hi''"]
  from T [THEN conjunct1] obtain init1 where
    x: "post ?P ''items'' (JStr ''hi'') JUndefined ?s = fetched ?P (url_toString ?u) init1 ?s
      \<and> (\<forall>b. JStr ''hi'' = JStr b \<longrightarrow> get_prop init1 ''body'' = JStr b)
      \<and> ((\<forall>b. JStr ''hi'' \<noteq> JStr b) \<longrightarrow> get_prop init1 ''body'' = JSON_stringify ?P (JStr ''hi''))" ..
  from T [THEN conjunct2] obtain init2 where
    y: "put ?P ''items'' (JStr ''hi'') JUndefined ?s = fetched ?P (url_toString ?u) init2 ?s
      \<and> get_prop init2 ''body'' = JSON_stringify ?P (JStr ''hi'')" ..
  note b1 = x [THEN conjunct2, THEN conjunct1, THEN spec, THEN mp, OF refl]
  have b2: "get_prop init2 ''body'' = JStr [CHR 0x22, CHR ''h'', CHR ''i'', CHR 0x22]"
    using y [THEN conjunct2] by (simp only: j)
  have "fst (post ?P ''items'' (JStr ''hi'') JUndefined ?s) = Inr (RetValue (JStr ''hi''))"
    by (simp only: x [THEN conjunct1]
        echoed [OF test_client_run(3), where d = describe_body] shown_body [OF b1])
  moreover have "fst (put ?P ''items'' (JStr ''hi'') JUndefined ?s)
      = Inr (RetValue (JStr [CHR 0x22, CHR ''h'', CHR ''i'', CHR 0x22]))"
    by (simp only: y [THEN conjunct1]
        echoed [OF test_client_run(3), where d = describe_body] shown_body [OF b2])
  ultimately show ?thesis by (rule conjI)
qed

section \<open>The method of a verb helper\<close>

text \<open>
  Claim C4, at its failing input: the per-call options of a verb helper are said to
  override the method of the outgoing request, as every helper's own documentation
  says of them (\<^verbatim>\<open>These override all other options\<close>).  A \<^verbatim>\<open>get\<close> whose options say
  \<^verbatim>\<open>method: 'POST'\<close> runs \<^verbatim>\<open>fetch\<close> with the method \<open>GET\<close>, and \<^verbatim>\<open>post\<close>, \<^verbatim>\<open>put\<close> and \<^verbatim>\<open>delete\<close>
  likewise keep their own verb: each writes \<^verbatim>\<open>method\<close> behind \<^verbatim>\<open>...options\<close>.
\<close>

theorem helper_method_fixed:
  "fst (get (echo_platform describe_method) ''items'' JUndefined
         (object_literal [(''method'', JStr ''POST'')]) (test_state test_client))
     = Inr (RetValue (JStr ''GET''))
   \<and> fst (post (echo_platform describe_method) ''items'' (JStr ''x'')
         (object_literal [(''method'', JStr ''PUT'')]) (test_state test_client))
     = Inr (RetValue (JStr ''POST''))
   \<and> fst (put (echo_platform describe_method) ''items'' (JStr ''x'')
         (object_literal [(''method'', JStr ''DELETE'')]) (test_state test_client))
     = Inr (RetValue (JStr ''PUT''))
   \<and> fst (delete (echo_platform describe_method) ''items''
         (object_literal [(''method'', JStr ''GET'')]) (test_state test_client))
     = Inr (RetValue (JStr ''DELETE''))"
  by code_simp

section \<open>Query parameters of GET\<close>

section \<open>Query parameters of GET\<close>

lemma fold_searchParams_append:
  "fold (\<lambda>k. searchParams_append k (f k)) ks u =
     u\<lparr>searchParams := searchParams u @ map (\<lambda>k. (k, f k)) ks\<rparr>"
  by (induction ks arbitrary: u) (simp_all add: searchParams_append_def)

lemma own_entries_distinct:
  "distinct (map fst kvs) \<Longrightarrow>
   own_entries kvs =
     sort_key index_of_entry (filter is_index_entry kvs) @ filter (\<lambda>p. \<not> is_index_entry p) kvs"
  by (simp add: own_entries_def)

lemma get_prop_entry:
  "distinct (map fst kvs) \<Longrightarrow> p \<in> set kvs \<Longrightarrow> get_prop (JObj kvs) (fst p) = snd p"
  by (cases p) simp

lemma entries_read_back:
  assumes "distinct (map fst kvs)"
  shows "map (\<lambda>k. (k, ToString nts (get_prop (JObj kvs) k))) (map fst (own_entries kvs)) =
         map (\<lambda>p. (fst p, ToString nts (snd p))) (own_entries kvs)"
proof -
  have r: "get_prop (JObj kvs) (fst p) = snd p" if "p \<in> set (own_entries kvs)" for p
  proof -
    from that assms have "p \<in> set kvs" by (simp add: set_own_entries)
    with assms show ?thesis by (rule get_prop_entry)
  qed
  have "map (\<lambda>k. (k, ToString nts (get_prop (JObj kvs) k))) (map fst (own_entries kvs)) =
        map (\<lambda>p. (fst p, ToString nts (get_prop (JObj kvs) (fst p)))) (own_entries kvs)"
    by (simp only: map_map comp_def)
  also have "\<dots> = map (\<lambda>p. (fst p, ToString nts (snd p))) (own_entries kvs)"
    by (rule map_cong [OF refl]) (simp only: r)
  finally show ?thesis .
qed

lemma no_index_entries:
  "list_all (\<lambda>p. array_index (fst p) = None) kvs \<Longrightarrow>
   filter is_index_entry kvs = [] \<and> filter (\<lambda>p. \<not> is_index_entry p) kvs = kvs"
  by (induction kvs) (simp_all add: is_index_entry_def)

lemma query_string_example:
  "query_string (map (\<lambda>p. (fst p, ToString nts (snd p)))
      [(''id'', JNum (Integral 1)), (''name'', JStr ''r'')])
     = ''id=1&name=r''"
  by (simp add: query_string_def urlencode_def urlencode_char_def is_alnum_def show_int_def
      digit_char_def char_of_eq_iff)

lemma array_index_examples:
  "array_index ''1'' = Some 1" "array_index ''b'' = None"
  "array_index ''id'' = None" "array_index ''name'' = None" "array_index ''n'' = None"
  by (simp_all add: array_index_def is_digit_def decimal_value_def)

lemma test_platform_URL_new:
  "URL_new test_platform x =
     (if x = [] then None else Some \<lparr>location = x, searchParams = [], hash = []\<rparr>)"
  by (simp add: test_platform_def)

lemma plain_state:
  "fst (createURL (echo_platform d) ''items''
         (test_state (constructor test_platform ''https://api.test'' None)))
     = Inr \<lparr>location = ''https://api.test/items'', searchParams = [], hash = []\<rparr>"
  "getAuthorization (test_state (constructor test_platform ''https://api.test'' None))
     = (Inr [], test_state (constructor test_platform ''https://api.test'' None))"
  "resolver (self (test_state (constructor test_platform ''https://api.test'' None)))
     = (\<lambda>res. no_assignments (response_json test_platform res))"
  by (simp_all add: createURL_def createURL_string_def getAuthorization_def test_state_def
      plain_client_fields echo_platform_fields test_platform_URL_new is_sep_def)

lemma urlencode_examples:
  "urlencode ''1'' = ''1''" "urlencode ''b'' = ''b''" "urlencode ''x'' = ''x''"
  "urlencode ''y'' = ''y''" "urlencode ''n'' = ''n''" "urlencode ''1e+21'' = ''1e%2B21''"
  by (simp_all add: urlencode_def urlencode_char_def is_alnum_def hex_digit_def char_of_eq_iff)

text \<open>
  Claim C6, as stated: the entries of the query mapping appear in the query string in
  the order they were inserted.  A mapping built by inserting \<open>b\<close> and then \<open>1\<close> is
  fetched from \<open>?1=y&b=x\<close>, not from \<open>?b=x&1=y\<close>: \<^verbatim>\<open>Object.keys\<close> lists keys that are array
  indices first.
\<close>

theorem get_query_order_counterexample:
  "fst (get (echo_platform describe_url) ''items''
         (object_literal [(''b'', JStr ''x''), (''1'', JStr ''y'')]) JUndefined
         (test_state (constructor test_platform ''https://api.test'' None)))
     = Inr (RetValue (JStr ''https://api.test/items?1=y&b=x''))
   \<and> query_string [(''b'', ''x''), (''1'', ''y'')] = ''b=x&1=y''"
proof -
  let ?s = "test_state (constructor test_platform ''https://api.test'' None)"
  let ?P = "echo_platform describe_url"
  let ?q = "JObj [(''b'', JStr ''x''), (''1'', JStr ''y'')]"
  let ?u = "\<lparr>location = ''https://api.test/items'', searchParams = [], hash = []\<rparr>"
  have q: "object_literal [(''b'', JStr ''x''), (''1'', JStr ''y'')] = ?q"
    by (simp add: object_literal_def define_prop_def)
  have keys: "Object_keys ?q = Inr [''1'', ''b'']"
    by (simp add: default_empty_def own_entries_def is_index_entry_def index_of_entry_def
        array_index_examples)
  have url: "url_toString (?u\<lparr>searchParams := searchParams ?u
        @ map (\<lambda>k. (k, ToString (Number_toString ?P) (get_prop ?q k))) [''1'', ''b'']\<rparr>)
      = ''https://api.test/items?1=y&b=x''"
    by (simp add: default_empty_def url_toString_def query_string_def urlencode_examples)
  let ?init = "request_init (self ?s)
      (JObj (define_prop ''method'' (JStr ''GET'') (spread_into [] (default_empty JUndefined)))) []"
  have "get ?P ''items'' ?q JUndefined ?s
      = fetched ?P (url_toString (?u\<lparr>searchParams := searchParams ?u
          @ map (\<lambda>k. (k, ToString (Number_toString ?P) (get_prop ?q k)))
              [''1'', ''b'']\<rparr>)) ?init ?s"
    using plain_state(2)
    unfolding get_def request_def Let_def
      createURL_parsed [OF plain_state(1) [where d = describe_url]] keys
      fold_searchParams_append default_empty_object
    by simp
  then have "get ?P ''items'' ?q JUndefined ?s
      = fetched ?P ''https://api.test/items?1=y&b=x'' ?init ?s"
    unfolding url .
  then have "fst (get ?P ''items'' ?q JUndefined ?s)
      = Inr (RetValue (JStr ''https://api.test/items?1=y&b=x''))"
    by (simp only: echoed [OF plain_state(3), where d = describe_url] describe_url_def)
  moreover have "query_string [(''b'', ''x''), (''1'', ''y'')] = ''b=x&1=y''"
    by (simp add: query_string_def urlencode_examples)
  ultimately show ?thesis by (simp only: q simp_thms)
qed

text \<open>
  Claim C6, amended: for every \<^verbatim>\<open>get\<close> call with a query mapping whose properties were
  created in the order \<open>kvs\<close>, each entry is appended to the search parameters of the
  built URL with its value coerced to a string, in the order \<^verbatim>\<open>Object.keys\<close> lists the
  keys: the keys that are array indices first, in ascending numeric order, then the
  other keys in insertion order; the URL with these parameters is the one the
  platform's \<^verbatim>\<open>fetch\<close> is run on.  A mapping without array-index keys is appended in
  insertion order, and \<open>{id: 1, name: "r"}\<close> yields the query string \<open>id=1&name=r\<close>.
  The string of a number is its decimal digits for an integer below \<open>2\<^sup>5\<^sup>3\<close> in
  magnitude and what the platform writes for any other.
\<close>

theorem get_query_order:
  assumes "distinct (map fst kvs)"
    and "fst (createURL P uri s) = Inr u"
    and "getAuthorization s = (Inr auth, s1)"
  shows "(\<exists>init. get P uri (JObj kvs) options s =
            fetched P (url_toString (u\<lparr>searchParams := searchParams u
                @ map (\<lambda>p. (fst p, ToString (Number_toString P) (snd p)))
                    (sort_key index_of_entry (filter is_index_entry kvs)
                     @ filter (\<lambda>p. \<not> is_index_entry p) kvs)\<rparr>)) init s1)
         \<and> (list_all (\<lambda>p. array_index (fst p) = None) kvs \<longrightarrow>
              (\<exists>init. get P uri (JObj kvs) options s =
                fetched P (url_toString (u\<lparr>searchParams := searchParams u
                    @ map (\<lambda>p. (fst p, ToString (Number_toString P) (snd p))) kvs\<rparr>)) init s1))
         \<and> query_string (map (\<lambda>p. (fst p, ToString (Number_toString P) (snd p)))
              [(''id'', JNum (Integral 1)), (''name'', JStr ''r'')]) = ''id=1&name=r''"
proof -
  have keys: "Object_keys (JObj kvs) = Inr (map fst (own_entries kvs))"
    by simp
  define init where "init = request_init (self s)
      (JObj (define_prop ''method'' (JStr ''GET'') (spread_into [] (default_empty options)))) auth"
  have "get P uri (JObj kvs) options s =
      fetched P (url_toString (u\<lparr>searchParams := searchParams u
          @ map (\<lambda>k. (k, ToString (Number_toString P) (get_prop (JObj kvs) k)))
              (map fst (own_entries kvs))\<rparr>)) init s1"
    using assms(3)
    unfolding get_def request_def Let_def createURL_parsed [OF assms(2)] keys
      fold_searchParams_append default_empty_object init_def
    by simp
  then have "get P uri (JObj kvs) options s =
      fetched P (url_toString (u\<lparr>searchParams := searchParams u
          @ map (\<lambda>p. (fst p, ToString (Number_toString P) (snd p))) (own_entries kvs)\<rparr>)) init s1"
    unfolding entries_read_back [OF assms(1)] .
  then have main: "get P uri (JObj kvs) options s =
      fetched P (url_toString (u\<lparr>searchParams := searchParams u
          @ map (\<lambda>p. (fst p, ToString (Number_toString P) (snd p)))
              (sort_key index_of_entry (filter is_index_entry kvs)
               @ filter (\<lambda>p. \<not> is_index_entry p) kvs)\<rparr>)) init s1"
    unfolding own_entries_distinct [OF assms(1)] .
  have first: "\<exists>init. get P uri (JObj kvs) options s =
      fetched P (url_toString (u\<lparr>searchParams := searchParams u
          @ map (\<lambda>p. (fst p, ToString (Number_toString P) (snd p)))
              (sort_key index_of_entry (filter is_index_entry kvs)
               @ filter (\<lambda>p. \<not> is_index_entry p) kvs)\<rparr>)) init s1"
    using main ..
  have second: "list_all (\<lambda>p. array_index (fst p) = None) kvs \<longrightarrow>
      (\<exists>init. get P uri (JObj kvs) options s =
        fetched P (url_toString (u\<lparr>searchParams := searchParams u
            @ map (\<lambda>p. (fst p, ToString (Number_toString P) (snd p))) kvs\<rparr>)) init s1)"
  proof
    assume "list_all (\<lambda>p. array_index (fst p) = None) kvs"
    from no_index_entries [OF this]
    have "sort_key index_of_entry (filter is_index_entry kvs)
        @ filter (\<lambda>p. \<not> is_index_entry p) kvs = kvs" by simp
    with main have "get P uri (JObj kvs) options s =
        fetched P (url_toString (u\<lparr>searchParams := searchParams u
            @ map (\<lambda>p. (fst p, ToString (Number_toString P) (snd p))) kvs\<rparr>)) init s1"
      by (simp only:)
    then show "\<exists>init. get P uri (JObj kvs) options s =
        fetched P (url_toString (u\<lparr>searchParams := searchParams u
            @ map (\<lambda>p. (fst p, ToString (Number_toString P) (snd p))) kvs\<rparr>)) init s1" ..
  qed
  from first second query_string_example show ?thesis by (intro conjI)
qed

theorem get_query_order_witness:
  "fst (get (echo_platform describe_url) ''items''
         (JObj [(''id'', JNum (Integral 1)), (''name'', JStr ''r'')]) JUndefined
         (test_state (constructor test_platform ''https://api.test'' None)))
     = Inr (RetValue (JStr ''https://api.test/items?id=1&name=r''))
   \<and> fst (get (echo_platform describe_url) ''items''
         (JObj [(''n'', JNum (Integral 1000000000000000000000))]) JUndefined
         (test_state (constructor test_platform ''https://api.test'' None)))
     = Inr (RetValue (JStr ''https://api.test/items?n=1e%2B21''))"
proof -
  let ?s = "test_state (constructor test_platform ''https://api.test'' None)"
  let ?P = "echo_platform describe_url"
  let ?kvs = "[(''id'', JNum (Integral 1)), (''name'', JStr ''r'')]"
  let ?big = "[(''n'', JNum (Integral 1000000000000000000000))]"
  let ?u = "\<lparr>location = ''https://api.test/items'', searchParams = [], hash = []\<rparr>"
  have evaluated: "fst (get ?P ''items'' (JObj ?kvs) JUndefined ?s)
        = Inr (RetValue (JStr ''https://api.test/items?id=1&name=r''))"
    by code_simp
  have d: "distinct (map fst ?kvs)" "distinct (map fst ?big)" by simp_all
  have n: "list_all (\<lambda>p. array_index (fst p) = None) ?kvs"
    "list_all (\<lambda>p. array_index (fst p) = None) ?big"
    by (simp_all add: array_index_examples)
  have t: "url_toString (?u\<lparr>searchParams := searchParams ?u
        @ map (\<lambda>p. (fst p, ToString (Number_toString ?P) (snd p))) ?kvs\<rparr>)
      = ''https://api.test/items?id=1&name=r''"
    using query_string_example [of "Number_toString ?P"] by (simp add: url_toString_def)
  have t': "url_toString (?u\<lparr>searchParams := searchParams ?u
        @ map (\<lambda>p. (fst p, ToString (Number_toString ?P) (snd p))) ?big\<rparr>)
      = ''https://api.test/items?n=1e%2B21''"
    by (simp add: url_toString_def query_string_def echo_platform_fields test_number_string_def
        urlencode_examples)
  note T = get_query_order [OF _ plain_state(1) [where d = describe_url] plain_state(2),
      where options = JUndefined]
  from T [OF d(1), THEN conjunct2, THEN conjunct1, THEN mp, OF n(1)]
  obtain init where "get ?P ''items'' (JObj ?kvs) JUndefined ?s
      = fetched ?P ''https://api.test/items?id=1&name=r'' init ?s"
    unfolding t ..
  then have 1: "fst (get ?P ''items'' (JObj ?kvs) JUndefined ?s)
      = Inr (RetValue (JStr ''https://api.test/items?id=1&name=r''))"
    by (simp only: echoed [OF plain_state(3), where d = describe_url] describe_url_def)
  from T [OF d(2), THEN conjunct2, THEN conjunct1, THEN mp, OF n(2)]
  obtain init' where "get ?P ''items'' (JObj ?big) JUndefined ?s
      = fetched ?P ''https://api.test/items?n=1e%2B21'' init' ?s"
    unfolding t' ..
  then have 2: "fst (get ?P ''items'' (JObj ?big) JUndefined ?s)
      = Inr (RetValue (JStr ''https://api.test/items?n=1e%2B21''))"
    by (simp only: echoed [OF plain_state(3), where d = describe_url] describe_url_def)
  from 1 2 show ?thesis by (rule conjI)
qed

end
